theory Spec2Isabelle
  imports Complex_Main "HOL-Library.Log_Nat"
begin

text \<open>
  A model of \<^verbatim>\<open>main.c\<close>, a small LISP interpreter: the value system (\<^verbatim>\<open>pval\<close>), the parser
  (\<open>pval_parse\<close>), the builtins, the evaluator (\<open>pval_eval\<close>) and the printer (\<open>pval_print\<close>),
  each as a function computing what the C function computes, followed by the properties proved
  of them.
\<close>

section \<open>The C platform: doubles, 32-bit integers, printf conversions\<close>

text \<open>
  \<^verbatim>\<open>main.c\<close> stores every number in a C \<^verbatim>\<open>double\<close>. A double is modelled by its IEEE-754
  binary64 value: a finite value is a sign bit (\<open>True\<close> for minus) and a non-negative rational
  magnitude, so that \<open>-0.0\<close> and \<open>0.0\<close> are different values, as they are in memory. Arithmetic
  computes the exact rational result and rounds it to the nearest binary64 value, ties to even
  (the default rounding mode; the program never changes it).
\<close>

datatype double = Fin bool rat | Infinity bool | NaN

definition pow2 :: "int \<Rightarrow> rat" where
  "pow2 e = (if 0 \<le> e then of_int (2 ^ nat e) else 1 / of_int (2 ^ nat (- e)))"

text \<open>\<open>ilog2 q\<close> is the exponent \<open>e\<close> with \<open>2\<^sup>e \<le> q < 2\<^sup>e\<^sup>+\<^sup>1\<close>, for \<open>q > 0\<close>.\<close>

definition ilog2 :: "rat \<Rightarrow> int" where
  "ilog2 q = (if 1 \<le> q then bitlen \<lfloor>q\<rfloor> - 1 else - bitlen (\<lceil>1 / q\<rceil> - 1))"

definition round_half_even :: "rat \<Rightarrow> int" where
  "round_half_even q =
     (let f = \<lfloor>q\<rfloor>; d = q - of_int f
      in if d < 1 / 2 then f else if 1 / 2 < d then f + 1 else if even f then f else f + 1)"

text \<open>
  \<open>d_make s q\<close>: the double nearest to the magnitude \<open>q \<ge> 0\<close>, with sign \<open>s\<close>. A magnitude in
  \<open>[2\<^sup>e, 2\<^sup>e\<^sup>+\<^sup>1)\<close> is rounded to a multiple \<open>n\<close> of the unit \<open>u = 2\<^sup>e\<^sup>-\<^sup>5\<^sup>2\<close> (53 significant bits);
  below \<open>2\<^sup>-\<^sup>1\<^sup>0\<^sup>2\<^sup>2\<close> the unit stays \<open>2\<^sup>-\<^sup>1\<^sup>0\<^sup>7\<^sup>4\<close> (subnormals, and underflow to a zero of that
  sign). A result of \<open>2\<^sup>1\<^sup>0\<^sup>2\<^sup>4\<close> or more is an infinity.
\<close>

definition d_make :: "bool \<Rightarrow> rat \<Rightarrow> double" where
  "d_make s q =
     (if q = 0 then Fin s 0
      else let e = ilog2 q in
        if 1024 \<le> e then Infinity s
        else let u = pow2 (max e (- 1022) - 52); n = round_half_even (q / u)
             in if e = 1023 \<and> n = 2 ^ 53 then Infinity s else Fin s (of_int n * u))"

text \<open>The double denoted by a decimal literal of value \<open>q\<close>, as the compiler and \<^verbatim>\<open>strtod\<close>
  produce it (correctly rounded).\<close>

definition d_round :: "rat \<Rightarrow> double" where
  "d_round q = d_make (q < 0) \<bar>q\<bar>"

fun d_val :: "double \<Rightarrow> rat" where
  "d_val (Fin s m) = (if s then - m else m)"
| "d_val _ = 0"

fun d_neg :: "double \<Rightarrow> double" where
  "d_neg (Fin s m) = Fin (\<not> s) m"
| "d_neg (Infinity s) = Infinity (\<not> s)"
| "d_neg NaN = NaN"

text \<open>\<^verbatim>\<open>fabs\<close> clears the sign bit.\<close>

fun fabs :: "double \<Rightarrow> double" where
  "fabs (Fin s m) = Fin False m"
| "fabs (Infinity s) = Infinity False"
| "fabs NaN = NaN"

text \<open>An exact sum of zero is \<open>+0\<close> unless both operands are negative (that is, both \<open>-0\<close>).\<close>

fun d_add :: "double \<Rightarrow> double \<Rightarrow> double" where
  "d_add NaN _ = NaN"
| "d_add _ NaN = NaN"
| "d_add (Infinity s) (Infinity t) = (if s = t then Infinity s else NaN)"
| "d_add (Infinity s) (Fin _ _) = Infinity s"
| "d_add (Fin _ _) (Infinity t) = Infinity t"
| "d_add (Fin s m) (Fin t n) =
     (let r = d_val (Fin s m) + d_val (Fin t n)
      in if r = 0 then Fin (s \<and> t) 0 else d_round r)"

definition d_sub :: "double \<Rightarrow> double \<Rightarrow> double" where
  "d_sub x y = d_add x (d_neg y)"

fun d_mul :: "double \<Rightarrow> double \<Rightarrow> double" where
  "d_mul NaN _ = NaN"
| "d_mul _ NaN = NaN"
| "d_mul (Infinity s) (Infinity t) = Infinity (s \<noteq> t)"
| "d_mul (Infinity s) (Fin t n) = (if n = 0 then NaN else Infinity (s \<noteq> t))"
| "d_mul (Fin s m) (Infinity t) = (if m = 0 then NaN else Infinity (s \<noteq> t))"
| "d_mul (Fin s m) (Fin t n) = d_make (s \<noteq> t) (m * n)"

fun d_div :: "double \<Rightarrow> double \<Rightarrow> double" where
  "d_div NaN _ = NaN"
| "d_div _ NaN = NaN"
| "d_div (Infinity s) (Infinity t) = NaN"
| "d_div (Infinity s) (Fin t n) = Infinity (s \<noteq> t)"
| "d_div (Fin s m) (Infinity t) = Fin (s \<noteq> t) 0"
| "d_div (Fin s m) (Fin t n) =
     (if n = 0 then (if m = 0 then NaN else Infinity (s \<noteq> t)) else d_make (s \<noteq> t) (m / n))"

text \<open>The C comparison \<^verbatim>\<open>==\<close>: a NaN equals nothing, the two zeros are equal.\<close>

fun d_eq :: "double \<Rightarrow> double \<Rightarrow> bool" where
  "d_eq (Fin s m) (Fin t n) = (m = n \<and> (s = t \<or> m = 0))"
| "d_eq (Infinity s) (Infinity t) = (s = t)"
| "d_eq _ _ = False"

text \<open>The C comparison \<^verbatim>\<open><\<close>: false as soon as one side is a NaN.\<close>

fun d_lt :: "double \<Rightarrow> double \<Rightarrow> bool" where
  "d_lt NaN _ = False"
| "d_lt _ NaN = False"
| "d_lt (Fin s m) (Fin t n) = (d_val (Fin s m) < d_val (Fin t n))"
| "d_lt (Fin _ _) (Infinity t) = (\<not> t)"
| "d_lt (Infinity s) (Fin _ _) = s"
| "d_lt (Infinity s) (Infinity t) = (s \<and> \<not> t)"

text \<open>
  \<^verbatim>\<open>int32_t\<close> values are integers in \<open>[-2\<^sup>3\<^sup>1, 2\<^sup>3\<^sup>1)\<close>; \<open>wrap32\<close> is the two's-complement
  wrap-around into that range. Every \<^verbatim>\<open>int32_t\<close> is exactly representable as a double.
\<close>

definition INT32_MIN :: int where "INT32_MIN = - (2 ^ 31)"
definition INT32_MAX :: int where "INT32_MAX = 2 ^ 31 - 1"

definition wrap32 :: "int \<Rightarrow> int" where
  "wrap32 k = (k + 2 ^ 31) mod 2 ^ 32 - 2 ^ 31"

definition double_of_int32 :: "int \<Rightarrow> double" where
  "double_of_int32 k = Fin (k < 0) (of_int \<bar>k\<bar>)"

text \<open>
  The cast \<^verbatim>\<open>(int32_t)x\<close> truncates towards zero. When the truncated value does not fit (or \<open>x\<close>
  is an infinity or a NaN) the C standard leaves the result undefined; hardware returns some
  32-bit pattern (ARM64 saturates, x86-64 returns \<open>INT32_MIN\<close>). The model takes that result from
  a parameter \<open>oor\<close> ("out of range") and wraps it to 32 bits, so that what is proved holds for
  every such choice.
\<close>

fun int32_of_double :: "(double \<Rightarrow> int) \<Rightarrow> double \<Rightarrow> int" where
  "int32_of_double oor (Fin s m) =
     (let k = (if s then - \<lfloor>m\<rfloor> else \<lfloor>m\<rfloor>)
      in if INT32_MIN \<le> k \<and> k \<le> INT32_MAX then k else wrap32 (oor (Fin s m)))"
| "int32_of_double oor x = wrap32 (oor x)"

subsection \<open>printf conversions\<close>

definition digit_char :: "int \<Rightarrow> char" where
  "digit_char d = char_of (48 + d)"

text \<open>The decimal digits of \<open>n \<ge> 0\<close>.\<close>

function show_digits :: "int \<Rightarrow> string" where
  "show_digits n =
     (if n < 10 then [digit_char n] else show_digits (n div 10) @ [digit_char (n mod 10)])"
  by pat_completeness auto
termination
  by (relation "measure nat") auto

declare show_digits.simps [simp del]

text \<open>\<^verbatim>\<open>printf("%d", k)\<close>.\<close>

definition printf_d :: "int \<Rightarrow> string" where
  "printf_d k = (if k < 0 then CHR ''-'' # show_digits (- k) else show_digits k)"

text \<open>
  \<^verbatim>\<open>printf("%.3f", x)\<close>: for a finite \<open>x\<close> the exact value rounded to three decimals, ties to
  even, the sign being printed whenever the sign bit is set. How an infinity or a NaN is written
  is left to the implementation by the C standard (\<^verbatim>\<open>[-]inf\<close> or \<^verbatim>\<open>[-]infinity\<close>, \<^verbatim>\<open>[-]nan\<close> with
  a sign that depends on how the NaN arose); the model takes that text from a parameter
  \<open>nonfinite\<close>.
\<close>

fun printf_3f :: "(double \<Rightarrow> string) \<Rightarrow> double \<Rightarrow> string" where
  "printf_3f nonfinite (Fin s m) =
     (let n = round_half_even (m * 1000)
      in (if s then ''-'' else []) @ show_digits (n div 1000) @ ''.'' @
         [digit_char (n div 100 mod 10), digit_char (n div 10 mod 10), digit_char (n mod 10)])"
| "printf_3f nonfinite x = nonfinite x"

section \<open>The value system\<close>

text \<open>
  \<^verbatim>\<open>struct pval\<close> is a tagged value: the field \<^verbatim>\<open>type\<close> says which of the other fields is
  in use, and the six constructors of \<^verbatim>\<open>main.c\<close> zero the rest. A list keeps the three fields
  the code maintains for it: the backing array \<^verbatim>\<open>list_items\<close> (one entry per allocated slot, a
  null pointer being \<open>None\<close>), \<^verbatim>\<open>list_count\<close> and \<^verbatim>\<open>list_capacity\<close>, both \<^verbatim>\<open>int32_t\<close>. A
  function pointer is one of the six builtins. Pointers to values are \<open>pval option\<close>.

  Allocation (\<^verbatim>\<open>malloc\<close>, \<^verbatim>\<open>strdup\<close>) is taken to succeed, so a constructor returns its value;
  only \<^verbatim>\<open>realloc\<close> in \<open>pval_add\<close> may fail, by a parameter. A slot that C leaves uninitialised
  holds \<open>None\<close>.
\<close>

datatype pval_t = PVAL_NUMBER | PVAL_BOOL | PVAL_SYMBOL | PVAL_LIST | PVAL_FUNCTION | PVAL_ERROR

datatype builtin_function_ptr =
  FN_add | FN_sub | FN_mul | FN_div | FN_eq | FN_quit

datatype pval =
    Number double
  | Boolean bool
  | Symbol string
  | List (list_items: "pval option list") (list_count: int) (list_capacity: int)
  | Function builtin_function_ptr
  | Error (error_type: string) (error_message: string)

fun ptype :: "pval \<Rightarrow> pval_t" where
  "ptype (Number _) = PVAL_NUMBER"
| "ptype (Boolean _) = PVAL_BOOL"
| "ptype (Symbol _) = PVAL_SYMBOL"
| "ptype (List _ _ _) = PVAL_LIST"
| "ptype (Function _) = PVAL_FUNCTION"
| "ptype (Error _ _) = PVAL_ERROR"

definition pval_number :: "double \<Rightarrow> pval" where
  "pval_number number_val = Number number_val"

definition pval_bool :: "bool \<Rightarrow> pval" where
  "pval_bool bool_val = Boolean bool_val"

definition pval_symbol :: "string \<Rightarrow> pval" where
  "pval_symbol symbol_str = Symbol symbol_str"

definition pval_function :: "builtin_function_ptr \<Rightarrow> pval" where
  "pval_function func_ptr = Function func_ptr"

definition pval_list :: pval where
  "pval_list = List (replicate 4 None) 0 4"

definition pval_error :: "string \<Rightarrow> string \<Rightarrow> pval" where
  "pval_error etype emessage = Error etype emessage"


subsection \<open>\<^verbatim>\<open>pval_add\<close>\<close>

text \<open>
  \<^verbatim>\<open>SIZE_MAX\<close> on the 64-bit target the source names (Apple Silicon, Apple Clang). Comparing the
  \<^verbatim>\<open>int32_t\<close> capacity with \<^verbatim>\<open>SIZE_MAX / 2\<close> converts it to \<^verbatim>\<open>size_t\<close>; it is positive there, so
  the conversion keeps its value.
\<close>

definition SIZE_MAX :: int where "SIZE_MAX = 2 ^ 64 - 1"

text \<open>\<^verbatim>\<open>realloc\<close> to \<open>n\<close> slots keeps the old contents up to \<open>n\<close>.\<close>

definition realloc_items :: "nat \<Rightarrow> pval option list \<Rightarrow> pval option list" where
  "realloc_items n items = take n items @ replicate (n - length items) None"

text \<open>
  The last statement of \<^verbatim>\<open>pval_add\<close>: the store \<^verbatim>\<open>list_items[list_count++] = new_item\<close> under its
  guard. (A store beyond the allocated array, which a list built by this program never does,
  leaves the model's array as it is.)
\<close>

definition store_item :: "pval option list \<Rightarrow> int \<Rightarrow> int \<Rightarrow> pval option \<Rightarrow> pval" where
  "store_item items count capacity new_item =
     (if count < capacity then List (items[nat count := new_item]) (wrap32 (count + 1)) capacity
      else List items count capacity)"

text \<open>
  \<^verbatim>\<open>realloc\<close> returns a null pointer when the allocator has no memory for the request, which is
  the parameter \<open>realloc_ok\<close> being false, and for every request of more than \<^verbatim>\<open>PTRDIFF_MAX\<close>
  bytes, more than the address space of the target holds.
\<close>

definition PTRDIFF_MAX :: int where "PTRDIFF_MAX = 2 ^ 63 - 1"

text \<open>
  \<open>pval_add realloc_ok target_list new_item\<close> returns the list the pointer \<^verbatim>\<open>target_list\<close> points
  to after the call. \<^verbatim>\<open>list_capacity * 2\<close> is an \<^verbatim>\<open>int\<close> multiplication (wrapping at 32 bits),
  converted to \<^verbatim>\<open>size_t\<close> for \<^verbatim>\<open>new_capacity\<close> and back to \<^verbatim>\<open>int32_t\<close> when it is stored.
  The request to \<^verbatim>\<open>realloc\<close> is \<^verbatim>\<open>new_capacity * sizeof(pval *)\<close> bytes in \<^verbatim>\<open>size_t\<close> arithmetic,
  8 bytes a pointer.
\<close>

fun pval_add :: "bool \<Rightarrow> pval option \<Rightarrow> pval option \<Rightarrow> pval option" where
  "pval_add realloc_ok (Some (List items count capacity)) (Some item) =
     (if count < 0 \<or> capacity \<le> 0 then Some (List items count capacity)
      else if count \<ge> capacity then
        (if capacity > SIZE_MAX div 2 then Some (List items count capacity)
         else let new_capacity = wrap32 (capacity * 2) mod 2 ^ 64;
                  request = new_capacity * 8 mod 2 ^ 64
              in if \<not> realloc_ok \<or> PTRDIFF_MAX < request then Some (List items count capacity)
                 else Some (store_item (realloc_items (nat (request div 8)) items)
                              count (wrap32 new_capacity) (Some item)))
      else Some (store_item items count capacity (Some item)))"
| "pval_add realloc_ok target_list new_item = target_list"

section \<open>Builtin functions\<close>

text \<open>A builtin receives the array \<^verbatim>\<open>args\<close> of evaluated arguments, here a list whose length
  is \<^verbatim>\<open>arg_count\<close>.\<close>

fun add_loop :: "double \<Rightarrow> pval list \<Rightarrow> pval" where
  "add_loop running_sum [] = pval_number running_sum"
| "add_loop running_sum (a # args) =
     (case a of
        Number n \<Rightarrow> add_loop (d_add running_sum n) args
      | _ \<Rightarrow> pval_error ''TypeError'' ''Arguments to + must be numbers'')"

definition builtin_add :: "pval list \<Rightarrow> pval" where
  "builtin_add args =
     (if length args = 0 then pval_number (Fin False 0) else add_loop (Fin False 0) args)"

fun builtin_sub :: "pval list \<Rightarrow> pval" where
  "builtin_sub [] =
     pval_error ''ArityError'' (CHR 0x27 # ''-'' @ CHR 0x27 # '' requires at least one argument'')"
| "builtin_sub (Number x # args) =
     (case args of
        [] \<Rightarrow> pval_number (d_neg x)
      | [b] \<Rightarrow>
          (case b of
             Number y \<Rightarrow> pval_number (d_sub x y)
           | _ \<Rightarrow> pval_error ''TypeError'' ''Second argument to - must be a number'')
      | _ \<Rightarrow>
          pval_error ''ArityError''
            (CHR 0x27 # ''-'' @ CHR 0x27 # '' currently supports 1 or 2 arguments''))"
| "builtin_sub (_ # args) = pval_error ''TypeError'' ''First argument to - must be a number''"

fun mul_loop :: "double \<Rightarrow> pval list \<Rightarrow> pval" where
  "mul_loop running_product [] = pval_number running_product"
| "mul_loop running_product (a # args) =
     (case a of
        Number n \<Rightarrow> mul_loop (d_mul running_product n) args
      | _ \<Rightarrow> pval_error ''TypeError'' ''Arguments to * must be numbers'')"

definition builtin_mul :: "pval list \<Rightarrow> pval" where
  "builtin_mul args =
     (if length args = 0 then pval_number (Fin False 1) else mul_loop (Fin False 1) args)"

fun builtin_div :: "pval list \<Rightarrow> pval" where
  "builtin_div [a, b] =
     (case (a, b) of
        (Number x, Number y) \<Rightarrow>
          (if d_eq y (Fin False 0) then pval_error ''DivisionByZeroError'' ''Division by zero''
           else pval_number (d_div x y))
      | _ \<Rightarrow> pval_error ''TypeError'' ''Arguments to / must be numbers'')"
| "builtin_div _ =
     pval_error ''ArityError'' (CHR 0x27 # ''/'' @ CHR 0x27 # '' requires exactly 2 arguments'')"

text \<open>The constant \<^verbatim>\<open>1e-10\<close> of \<^verbatim>\<open>builtin_eq\<close>.\<close>

definition eq_tolerance :: double where
  "eq_tolerance = d_round (1 / 10 ^ 10)"

fun builtin_eq :: "pval list \<Rightarrow> pval" where
  "builtin_eq [first_arg, second_arg] =
     (if ptype first_arg \<noteq> ptype second_arg then pval_bool False
      else case (first_arg, second_arg) of
        (Number x, Number y) \<Rightarrow> pval_bool (d_lt (fabs (d_sub x y)) eq_tolerance)
      | (Boolean x, Boolean y) \<Rightarrow> pval_bool (x = y)
      | (Symbol x, Symbol y) \<Rightarrow> pval_bool (x = y)
      | _ \<Rightarrow> pval_error ''TypeError'' ''Unsupported types for equality comparison'')"
| "builtin_eq _ =
     pval_error ''ArityError'' (CHR 0x27 # ''='' @ CHR 0x27 # '' requires exactly 2 arguments'')"

fun builtin_quit :: "pval list \<Rightarrow> pval" where
  "builtin_quit [] = pval_symbol ''quitting''"
| "builtin_quit _ = pval_error ''ArityError'' ''quit takes no arguments''"

text \<open>Calling through a function pointer.\<close>

fun call_builtin :: "builtin_function_ptr \<Rightarrow> pval list \<Rightarrow> pval" where
  "call_builtin FN_add = builtin_add"
| "call_builtin FN_sub = builtin_sub"
| "call_builtin FN_mul = builtin_mul"
| "call_builtin FN_div = builtin_div"
| "call_builtin FN_eq = builtin_eq"
| "call_builtin FN_quit = builtin_quit"

text \<open>The table \<^verbatim>\<open>builtins[]\<close>, in its order, and the linear search of \<open>pval_eval\<close> in it.\<close>

definition builtins :: "(string \<times> builtin_function_ptr) list" where
  "builtins =
     [(''+'', FN_add), (''-'', FN_sub), (''*'', FN_mul), (''/'', FN_div), (''='', FN_eq),
      (''quit'', FN_quit)]"

fun lookup_builtin :: "(string \<times> builtin_function_ptr) list \<Rightarrow> string \<Rightarrow> pval" where
  "lookup_builtin [] symbol_str = pval_error ''UnboundError'' ''Symbol not bound to a function''"
| "lookup_builtin ((name, func) # table) symbol_str =
     (if symbol_str = name then pval_function func else lookup_builtin table symbol_str)"

section \<open>The evaluator\<close>

text \<open>
  The \<^verbatim>\<open>for\<close> loop of \<open>pval_eval\<close> over the elements is \<open>eval_loop\<close>, with the loop index \<open>i\<close> and
  the array \<^verbatim>\<open>evaluated_items\<close> filled so far; when the loop ends, the head is applied to the
  other evaluated elements. The test \<^verbatim>\<open>i >= list_count\<close> inside the loop is kept (it can never
  hold there); the same test in the loop that copies the arguments is dropped with that loop,
  whose result is the tail of \<^verbatim>\<open>evaluated_items\<close>. A read of \<^verbatim>\<open>list_items[i]\<close> beyond the allocated
  array, which C leaves undefined and a list built by this program never does, reads a null
  pointer in the model.
\<close>

lemma size_nth_less: "n < length xs \<Longrightarrow> f (xs ! n) < size_list f xs"
proof (induction xs arbitrary: n)
  case Nil
  then show ?case by simp
next
  case (Cons a xs)
  show ?case
  proof (cases n)
    case 0
    then show ?thesis by simp
  next
    case (Suc k)
    with Cons.prems have "k < length xs" by simp
    from Cons.IH [OF this] Suc show ?thesis by simp
  qed
qed

function pval_eval :: "pval option \<Rightarrow> pval option"
  and eval_loop :: "pval option list \<Rightarrow> int \<Rightarrow> int \<Rightarrow> pval list \<Rightarrow> pval"
where
  "pval_eval None = None"
| "pval_eval (Some (Number n)) = Some (pval_number n)"
| "pval_eval (Some (Boolean b)) = Some (pval_bool b)"
| "pval_eval (Some (Error t m)) = Some (pval_error t m)"
| "pval_eval (Some (Symbol s)) = Some (lookup_builtin builtins s)"
| "pval_eval (Some (List items count capacity)) =
     (if count < 0 then Some (pval_error ''ListError'' ''Invalid list count'')
      else if count = 0 then Some pval_list
      else Some (eval_loop items count 0 []))"
| "pval_eval (Some (Function f)) =
     Some (pval_error ''EvalError'' ''Unsupported pval type for evaluation'')"
| "eval_loop items count i evaluated_items =
     (if i < count then
        (if i \<ge> count then pval_error ''ListError'' ''List index out of bounds''
         else case (if 0 \<le> i \<and> nat i < length items then pval_eval (items ! nat i) else None) of
           None \<Rightarrow> pval_error ''EvalError'' ''Null evaluation result''
         | Some (Error t m) \<Rightarrow> pval_error t m
         | Some v \<Rightarrow> eval_loop items count (i + 1) (evaluated_items @ [v]))
      else
        (case evaluated_items of
           Function f # function_args \<Rightarrow> call_builtin f function_args
         | _ \<Rightarrow> pval_error ''InapplicableHeadError'' ''Expression head is not a function''))"
  by pat_completeness auto
termination
  by (relation "(\<lambda>x. case x of Inl v \<Rightarrow> size_option size v
                          | Inr (items, count, i, ev) \<Rightarrow> size_list (size_option size) items)
                <*mlex*> measure (\<lambda>x. case x of Inl v \<Rightarrow> 0
                          | Inr (items, count, i, ev) \<Rightarrow> nat (count - i))")
     (auto simp: wf_mlex mlex_less mlex_leq size_nth_less)

section \<open>Printing\<close>

text \<open>
  \<open>pval_print\<close> returns the text the C function writes to standard output. Its two parameters
  are those of the cast and of \<^verbatim>\<open>printf\<close> above.
\<close>

function pval_print :: "(double \<Rightarrow> int) \<Rightarrow> (double \<Rightarrow> string) \<Rightarrow> pval option \<Rightarrow> string"
  and print_loop :: "(double \<Rightarrow> int) \<Rightarrow> (double \<Rightarrow> string) \<Rightarrow> pval option list \<Rightarrow> int \<Rightarrow> int
      \<Rightarrow> string"
where
  "pval_print oor nonfinite None = ''NULL_PVAL''"
| "pval_print oor nonfinite (Some (Number number)) =
     (if d_eq number (double_of_int32 (int32_of_double oor number))
      then printf_d (int32_of_double oor number)
      else printf_3f nonfinite number)"
| "pval_print oor nonfinite (Some (Boolean boolean)) = (if boolean then ''#t'' else ''#f'')"
| "pval_print oor nonfinite (Some (Symbol symbol)) = symbol"
| "pval_print oor nonfinite (Some (List items count capacity)) =
     ''('' @ print_loop oor nonfinite items count 0 @ '')''"
| "pval_print oor nonfinite (Some (Error etype emessage)) =
     ''$error{'' @ etype @ '' '' @ emessage @ ''}''"
| "pval_print oor nonfinite (Some (Function f)) = ''<function>''"
| "print_loop oor nonfinite items count i =
     (if i < count then
        (if 0 \<le> i \<and> nat i < length items then pval_print oor nonfinite (items ! nat i) else ''NULL_PVAL'')
        @ (if i < count - 1 then '' '' else [])
        @ print_loop oor nonfinite items count (i + 1)
      else [])"
  by pat_completeness auto
termination
  by (relation "(\<lambda>x. case x of Inl (oor, nonfinite, v) \<Rightarrow> size_option size v
                          | Inr (oor, nonfinite, items, count, i) \<Rightarrow> size_list (size_option size) items)
                <*mlex*> measure (\<lambda>x. case x of Inl v \<Rightarrow> 0
                          | Inr (oor, nonfinite, items, count, i) \<Rightarrow> nat (count - i))")
     (auto simp: wf_mlex mlex_less mlex_leq size_nth_less)

section \<open>The parser\<close>

text \<open>
  A C string is the list of its characters before the terminating NUL, so the end of the list
  is the test \<^verbatim>\<open>**input_ptr == '\0'\<close>. The cursor \<^verbatim>\<open>*input_ptr\<close> is the text still to be read; the
  parser returns the pointer it returns in C together with the cursor it leaves. \<^verbatim>\<open>isspace\<close>
  and \<^verbatim>\<open>isdigit\<close> are those of the "C" locale, which the program never changes.
\<close>

definition isspace :: "char \<Rightarrow> bool" where
  "isspace c = (c = CHR '' '' \<or> (9 \<le> (of_char c :: nat) \<and> (of_char c :: nat) \<le> 13))"

definition isdigit :: "char \<Rightarrow> bool" where
  "isdigit c = (48 \<le> (of_char c :: nat) \<and> (of_char c :: nat) \<le> 57)"

definition skip_whitespace :: "string \<Rightarrow> string" where
  "skip_whitespace input = dropWhile isspace input"

text \<open>
  The symbol loop: \<open>symbol_buffer\<close> holds the \<open>i\<close> characters copied so far, and
  \<^verbatim>\<open>sizeof(symbol_buffer) - 1\<close> is 255.
\<close>

fun read_symbol :: "string \<Rightarrow> string \<Rightarrow> pval \<times> string" where
  "read_symbol symbol_buffer [] =
     (if length symbol_buffer = 0
      then (pval_error ''SyntaxError'' ''Empty symbol or unparsable token'', [])
      else (pval_symbol symbol_buffer, []))"
| "read_symbol symbol_buffer (c # input) =
     (if \<not> isspace c \<and> c \<noteq> CHR ''('' \<and> c \<noteq> CHR '')'' then
        (if length symbol_buffer \<ge> 255
         then (pval_error ''SyntaxError'' ''Symbol too long'', c # input)
         else read_symbol (symbol_buffer @ [c]) input)
      else if length symbol_buffer = 0
      then (pval_error ''SyntaxError'' ''Empty symbol or unparsable token'', c # input)
      else (pval_symbol symbol_buffer, c # input))"

text \<open>
  The branches of \<open>pval_parse\<close> for numbers, booleans and symbols. The library function
  \<^verbatim>\<open>strtod\<close> is a parameter: it returns the number and how many characters it consumed
  (\<^verbatim>\<open>end_ptr - *input_ptr\<close>).
\<close>

definition parse_atom :: "(string \<Rightarrow> double \<times> nat) \<Rightarrow> string \<Rightarrow> pval option \<times> string" where
  "parse_atom strtod input =
     (if (case input of [] \<Rightarrow> False | c # _ \<Rightarrow> isdigit c)
         \<or> (case input of c # d # _ \<Rightarrow> c = CHR ''-'' \<and> isdigit d | _ \<Rightarrow> False)
         \<or> (case input of [] \<Rightarrow> False | c # _ \<Rightarrow> c = CHR ''.'') then
        (case strtod input of
           (parsed_num, consumed) \<Rightarrow>
             if consumed = 0
             then (Some (pval_error ''SyntaxError'' ''Invalid number format''), input)
             else (Some (pval_number parsed_num), drop consumed input))
      else if take 2 input = ''#t'' then (Some (pval_bool True), drop 2 input)
      else if take 2 input = ''#f'' then (Some (pval_bool False), drop 2 input)
      else (case read_symbol [] input of (v, rest) \<Rightarrow> (Some v, rest)))"

text \<open>
  \<open>parse_list\<close> is the \<^verbatim>\<open>while (true)\<close> loop of the list branch, with the list built so far.
  The parser appends with \<open>pval_add\<close>, whose \<^verbatim>\<open>realloc\<close> succeeds.
\<close>

function pval_parse :: "(string \<Rightarrow> double \<times> nat) \<Rightarrow> string \<Rightarrow> pval option \<times> string"
  and parse_list ::
    "(string \<Rightarrow> double \<times> nat) \<Rightarrow> pval option \<Rightarrow> string \<Rightarrow> pval option \<times> string"
where
  "pval_parse strtod input =
     (case skip_whitespace input of
        [] \<Rightarrow> (None, [])
      | c # rest \<Rightarrow>
          if c = CHR ''('' then parse_list strtod (Some pval_list) rest
          else parse_atom strtod (c # rest))"
| "parse_list strtod list_value input =
     (case skip_whitespace input of
        [] \<Rightarrow>
          (Some (pval_error ''SyntaxError''
                  (''Unexpected EOF, expected '' @ [CHR 0x27, CHR '')'', CHR 0x27])), [])
      | c # rest \<Rightarrow>
          if c = CHR '')'' then (list_value, rest)
          else (case pval_parse strtod (c # rest) of
                  (None, rest') \<Rightarrow>
                    (Some (pval_error ''SyntaxError'' ''Invalid expression inside list''), rest')
                | (Some parsed_item, rest') \<Rightarrow>
                    if ptype parsed_item = PVAL_ERROR then (Some parsed_item, rest')
                    else parse_list strtod (pval_add True list_value (Some parsed_item)) rest'))"
  by pat_completeness auto

text \<open>Every value the parser returns has consumed input, which is why the loop ends.\<close>

lemma skip_whitespace_length: "length (skip_whitespace input) \<le> length input"
  by (simp add: skip_whitespace_def length_dropWhile_le)

lemma skip_whitespace_Cons_length:
  "skip_whitespace input = c # rest \<Longrightarrow> length rest < length input"
  using skip_whitespace_length [of input] by simp

lemma read_symbol_length:
  "read_symbol buf s = (v, r) \<Longrightarrow>
     length r \<le> length s \<and> (ptype v \<noteq> PVAL_ERROR \<longrightarrow> buf \<noteq> [] \<or> length r < length s)"
proof (induction buf s arbitrary: v r rule: read_symbol.induct)
  case (1 symbol_buffer)
  then show ?case by (auto simp: pval_error_def split: if_splits)
next
  case (2 symbol_buffer c input)
  show ?case
  proof (cases "\<not> isspace c \<and> c \<noteq> CHR ''('' \<and> c \<noteq> CHR '')'' \<and> \<not> length symbol_buffer \<ge> 255")
    case True
    with "2.prems" have "read_symbol (symbol_buffer @ [c]) input = (v, r)" by simp
    from "2.IH" [OF _ _ this] True show ?thesis by auto
  next
    case False
    with "2.prems" show ?thesis by (auto simp: pval_error_def split: if_splits)
  qed
qed

lemma parse_atom_length:
  assumes "parse_atom strtod input = (Some v, r)" and "ptype v \<noteq> PVAL_ERROR" and "input \<noteq> []"
  shows "length r < length input"
proof -
  obtain sv sr where rs: "read_symbol [] input = (sv, sr)"
    by (cases "read_symbol [] input")
  from read_symbol_length [OF rs]
  have sym: "ptype sv \<noteq> PVAL_ERROR \<longrightarrow> length sr < length input" by simp
  obtain num n where st: "strtod input = (num, n)"
    by (cases "strtod input")
  from assms(3) have dr: "\<And>k. 0 < k \<Longrightarrow> length (drop k input) < length input"
    by (cases input) auto
  from assms(1,2) rs st sym dr [of 2] dr [of n] show ?thesis
    unfolding parse_atom_def
    by (simp add: pval_error_def split: if_splits) auto
qed

lemma parse_progress_partial:
  "pval_parse_parse_list_dom (Inl (strtod, input)) \<Longrightarrow>
     pval_parse strtod input = (Some v, r) \<Longrightarrow> ptype v \<noteq> PVAL_ERROR \<Longrightarrow> length r < length input"
  "pval_parse_parse_list_dom (Inr (strtod, lv, input)) \<Longrightarrow>
     parse_list strtod lv input = (res, r') \<Longrightarrow> (\<forall>e. res = Some e \<longrightarrow> ptype e \<noteq> PVAL_ERROR) \<Longrightarrow>
     length r' < length input"
proof (induction strtod input and strtod lv input arbitrary: v r and res r'
    rule: pval_parse_parse_list.pinduct)
  case (1 strtod input)
  obtain c rest where sk: "skip_whitespace input = c # rest"
    using "1.prems" "1.hyps" by (cases "skip_whitespace input") (auto simp: pval_parse.psimps)
  have len: "length rest < length input"
    using sk by (rule skip_whitespace_Cons_length)
  show ?case
  proof (cases "c = CHR ''(''")
    case True
    with "1.prems" "1.hyps" sk have "parse_list strtod (Some pval_list) rest = (Some v, r)"
      by (simp add: pval_parse.psimps)
    from "1.IH" [OF sk True this] "1.prems" len show ?thesis by simp
  next
    case False
    with "1.prems" "1.hyps" sk have "parse_atom strtod (c # rest) = (Some v, r)"
      by (simp add: pval_parse.psimps)
    from parse_atom_length [OF this] "1.prems" have "length r < length (c # rest)" by simp
    with len show ?thesis by simp
  qed
next
  case (2 strtod list_value input)
  obtain c rest where sk: "skip_whitespace input = c # rest"
    using "2.prems" "2.hyps"
    by (cases "skip_whitespace input") (auto simp: parse_list.psimps pval_error_def)
  have len: "length rest < length input"
    using sk by (rule skip_whitespace_Cons_length)
  show ?case
  proof (cases "c = CHR '')''")
    case True
    with "2.prems" "2.hyps" sk len show ?thesis
      by (simp add: parse_list.psimps)
  next
    case False
    obtain pv pr where pp: "pval_parse strtod (c # rest) = (pv, pr)"
      by (cases "pval_parse strtod (c # rest)")
    from "2.prems" "2.hyps" sk False pp obtain item where
      item: "pv = Some item" "ptype item \<noteq> PVAL_ERROR"
      and rec: "parse_list strtod (pval_add True list_value (Some item)) pr = (res, r')"
      by (cases pv) (auto simp: parse_list.psimps pval_error_def split: if_splits)
    from "2.IH"(1) [OF sk False] pp item have "length pr < length (c # rest)" by simp
    moreover from "2.IH"(2) [OF sk False pp [symmetric] item(1) item(2) rec] "2.prems"
    have "length r' < length pr" by simp
    ultimately show ?thesis using len by simp
  qed
qed

termination pval_parse
  apply (relation "measure (\<lambda>x. case x of Inl (strtod, s) \<Rightarrow> 2 * length s
                              | Inr (strtod, lv, s) \<Rightarrow> 2 * length s + 1)")
     apply (auto dest: skip_whitespace_Cons_length)
  subgoal for strtod input c rest y x2
    using parse_progress_partial(1) [of strtod "c # rest" x2 y]
      skip_whitespace_Cons_length [of input c rest]
    by simp
  done

declare pval_parse.simps [simp del] parse_list.simps [simp del]
declare pval_eval.simps(6) [simp del] eval_loop.simps [simp del] print_loop.simps [simp del]

subsection \<open>A decimal \<^verbatim>\<open>strtod\<close>\<close>

text \<open>
  For worked examples, the decimal forms \<^verbatim>\<open>strtod\<close> accepts where the parser calls it: an optional
  sign, digits with an optional point, and an optional exponent; the value is correctly rounded.
  (The hexadecimal forms of C99 are left out; the theorems about the parser hold for every
  \<^verbatim>\<open>strtod\<close>.)
\<close>

definition digit_val :: "char \<Rightarrow> int" where
  "digit_val c = of_char c - 48"

definition digits_val :: "string \<Rightarrow> int" where
  "digits_val ds = foldl (\<lambda>acc c. acc * 10 + digit_val c) 0 ds"

text \<open>The exponent part: the power of ten, and the characters it takes.\<close>

definition strtod_exponent :: "string \<Rightarrow> int \<times> nat" where
  "strtod_exponent s =
     (case s of
        [] \<Rightarrow> (0, 0)
      | e # t \<Rightarrow>
          if e = CHR ''e'' \<or> e = CHR ''E'' then
            (let neg = (case t of c # _ \<Rightarrow> c = CHR ''-'' | [] \<Rightarrow> False);
                 signed = (case t of c # _ \<Rightarrow> c = CHR ''-'' \<or> c = CHR ''+'' | [] \<Rightarrow> False);
                 ds = takeWhile isdigit (if signed then tl t else t)
             in if ds = [] then (0, 0)
                else ((if neg then - digits_val ds else digits_val ds),
                      1 + (if signed then 1 else 0) + length ds))
          else (0, 0))"

definition pow10 :: "int \<Rightarrow> rat" where
  "pow10 e = (if 0 \<le> e then 10 ^ nat e else 1 / 10 ^ nat (- e))"

definition strtod_decimal :: "string \<Rightarrow> double \<times> nat" where
  "strtod_decimal s =
     (let neg = (case s of c # _ \<Rightarrow> c = CHR ''-'' | [] \<Rightarrow> False);
          signed = (case s of c # _ \<Rightarrow> c = CHR ''-'' \<or> c = CHR ''+'' | [] \<Rightarrow> False);
          s1 = (if signed then tl s else s);
          ip = takeWhile isdigit s1;
          s2 = drop (length ip) s1;
          pointed = (case s2 of c # _ \<Rightarrow> c = CHR ''.'' | [] \<Rightarrow> False);
          fp = (if pointed then takeWhile isdigit (tl s2) else []);
          s3 = (if pointed then drop (length fp) (tl s2) else s2)
      in if ip = [] \<and> fp = [] then (Fin False 0, 0)
         else (case strtod_exponent s3 of
                 (ex, k) \<Rightarrow>
                   (d_make neg (of_int (digits_val (ip @ fp)) * pow10 (ex - int (length fp))),
                    (if signed then 1 else 0) + length ip
                    + (if pointed then 1 + length fp else 0) + k)))"

section \<open>Notions used in the statements\<close>

text \<open>
  The out-of-range result of the cast \<^verbatim>\<open>(int32_t)x\<close> on ARM64, the target the source names:
  the conversion saturates, and a NaN gives 0.
\<close>

definition oor_arm64 :: "double \<Rightarrow> int" where
  "oor_arm64 x =
     (case x of Fin s m \<Rightarrow> (if s then INT32_MIN else INT32_MAX)
      | Infinity s \<Rightarrow> (if s then INT32_MIN else INT32_MAX)
      | NaN \<Rightarrow> 0)"

text \<open>One of the ways \<^verbatim>\<open>printf\<close> may write an infinity and a NaN.\<close>

definition nonfinite_lower :: "double \<Rightarrow> string" where
  "nonfinite_lower x =
     (case x of Infinity s \<Rightarrow> (if s then ''-inf'' else ''inf'') | _ \<Rightarrow> ''nan'')"

text \<open>A magnitude "has no fractional part"; a double lies in the range of \<^verbatim>\<open>int32_t\<close>.\<close>

definition no_fractional_part :: "rat \<Rightarrow> bool" where
  "no_fractional_part m = (of_int \<lfloor>m\<rfloor> = m)"

definition in_int32_range :: "double \<Rightarrow> bool" where
  "in_int32_range x = (of_int INT32_MIN \<le> d_val x \<and> d_val x \<le> of_int INT32_MAX)"

text \<open>An element of a list evaluates to a value that is not an error.\<close>

definition evaluates_ok :: "pval option \<Rightarrow> bool" where
  "evaluates_ok x = (case pval_eval x of None \<Rightarrow> False | Some v \<Rightarrow> ptype v \<noteq> PVAL_ERROR)"

text \<open>The value the parser builds for \<^verbatim>\<open>(+ 1 (/ 1 0) undefined-symbol)\<close>.\<close>

definition short_circuit_example :: pval where
  "short_circuit_example =
     List [Some (Symbol ''+''), Some (Number (Fin False 1)),
           Some (List [Some (Symbol ''/''), Some (Number (Fin False 1)),
                       Some (Number (Fin False 0)), None] 3 4),
           Some (Symbol ''undefined-symbol'')] 4 4"


text \<open>
  The text after the parenthesis that closes a list, where \<open>d\<close> lists opened inside it are still
  open: every \<^verbatim>\<open>(\<close> opens one more, every \<^verbatim>\<open>)\<close> closes the innermost. \<open>None\<close> when the text ends
  before that parenthesis.
\<close>

fun after_matching :: "nat \<Rightarrow> string \<Rightarrow> string option" where
  "after_matching d [] = None"
| "after_matching d (c # cs) =
     (if c = CHR ''('' then after_matching (Suc d) cs
      else if c = CHR '')'' then (case d of 0 \<Rightarrow> Some cs | Suc d' \<Rightarrow> after_matching d' cs)
      else after_matching d cs)"

text \<open>
  The texts \<open>pval_parse\<close> hands to \<^verbatim>\<open>strtod\<close>: they begin with a digit, a minus sign and a digit,
  or a point.
\<close>

definition number_start :: "string \<Rightarrow> bool" where
  "number_start input =
     ((case input of [] \<Rightarrow> False | c # _ \<Rightarrow> isdigit c)
      \<or> (case input of c # d # _ \<Rightarrow> c = CHR ''-'' \<and> isdigit d | _ \<Rightarrow> False)
      \<or> (case input of [] \<Rightarrow> False | c # _ \<Rightarrow> c = CHR ''.''))"

text \<open>The positions of a text: the text itself and what is left of it after each character.\<close>

fun tails :: "string \<Rightarrow> string list" where
  "tails [] = [[]]"
| "tails (c # cs) = (c # cs) # tails cs"

text \<open>
  Nowhere in the text does \<^verbatim>\<open>strtod\<close> read a parenthesis as part of a number (a number of C has
  none).
\<close>

definition paren_free :: "(string \<Rightarrow> double \<times> nat) \<Rightarrow> string \<Rightarrow> bool" where
  "paren_free strtod input =
     (\<forall>t \<in> set (tails input).
        number_start t \<longrightarrow>
          (\<forall>c \<in> set (take (snd (strtod t)) t). c \<noteq> CHR ''('' \<and> c \<noteq> CHR '')''))"

text \<open>
  The characters the symbol loop copies, and a text without a token in error: wherever a number
  may start \<^verbatim>\<open>strtod\<close> reads one, and no run of symbol characters is longer than the 255 the
  buffer holds.
\<close>

definition symbol_char :: "char \<Rightarrow> bool" where
  "symbol_char c = (\<not> isspace c \<and> c \<noteq> CHR ''('' \<and> c \<noteq> CHR '')'')"

definition tokens_ok :: "(string \<Rightarrow> double \<times> nat) \<Rightarrow> string \<Rightarrow> bool" where
  "tokens_ok strtod input =
     (\<forall>t \<in> set (tails input).
        (number_start t \<longrightarrow> snd (strtod t) \<noteq> 0) \<and> length (takeWhile symbol_char t) \<le> 255)"

text \<open>The message of the parser when the input ends inside a list.\<close>

definition eof_message :: string where
  "eof_message = ''Unexpected EOF, expected '' @ [CHR 0x27, CHR '')'', CHR 0x27]"

section \<open>Properties of the evaluator and the builtins\<close>

text \<open>
  Claim C9. A value whose tag is \<^verbatim>\<open>PVAL_FUNCTION\<close> is not self-evaluating: it passes every test
  of \<open>pval_eval\<close> and reaches the final \<^verbatim>\<open>return\<close>, so that its evaluation is the error
  \<^verbatim>\<open>EvalError\<close> with the message "Unsupported pval type for evaluation".
\<close>

theorem pval_eval_function_is_eval_error:
  "ptype v = PVAL_FUNCTION \<Longrightarrow>
     pval_eval (Some v) = Some (pval_error ''EvalError'' ''Unsupported pval type for evaluation'')"
  by (cases v) simp_all

theorem pval_eval_function_is_eval_error_witness:
  "ptype (pval_function FN_add) = PVAL_FUNCTION \<and>
   pval_eval (Some (pval_function FN_add)) =
     Some (Error ''EvalError'' ''Unsupported pval type for evaluation'')"
  using pval_eval_function_is_eval_error [of "pval_function FN_add"]
  by (simp add: pval_function_def pval_error_def)











lemma builtin_eq_arity:
  assumes "length args \<noteq> 2"
  shows "builtin_eq args =
     pval_error ''ArityError'' (CHR 0x27 # ''='' @ CHR 0x27 # '' requires exactly 2 arguments'')"
proof (cases args)
  case Nil
  then show ?thesis by simp
next
  case (Cons a as)
  note outer = this
  show ?thesis
  proof (cases as)
    case Nil
    with outer show ?thesis by simp
  next
    case (Cons b bs)
    with outer assms obtain c cs where "bs = c # cs" by (cases bs) auto
    with outer Cons show ?thesis by simp
  qed
qed

lemma builtin_eq_unsupported:
  assumes "ptype a = ptype b" and "ptype a = PVAL_LIST \<or> ptype a = PVAL_FUNCTION \<or> ptype a = PVAL_ERROR"
  shows "builtin_eq [a, b] = pval_error ''TypeError'' ''Unsupported types for equality comparison''"
  using assms by (cases a; cases b) auto

text \<open>
  Claim C4. \<^verbatim>\<open>=\<close> takes exactly two arguments, any other count being an \<^verbatim>\<open>ArityError\<close>. Two
  arguments of different tags give the boolean false, not an error. Two booleans and two symbols
  are compared by their exact value: the result is the boolean true when the two are the same
  and the boolean false when they differ. Two lists, two functions and two errors give a
  \<^verbatim>\<open>TypeError\<close>.
\<close>

theorem builtin_eq_cases:
  "(length args \<noteq> 2 \<longrightarrow>
      builtin_eq args =
        Error ''ArityError'' (CHR 0x27 # ''='' @ CHR 0x27 # '' requires exactly 2 arguments''))
   \<and> (ptype a \<noteq> ptype b \<longrightarrow> builtin_eq [a, b] = Boolean False)
   \<and> builtin_eq [Boolean p, Boolean q] = Boolean (p = q)
   \<and> builtin_eq [Symbol s, Symbol t] = Boolean (s = t)
   \<and> (ptype a = ptype b
        \<and> (ptype a = PVAL_LIST \<or> ptype a = PVAL_FUNCTION \<or> ptype a = PVAL_ERROR) \<longrightarrow>
        builtin_eq [a, b] = Error ''TypeError'' ''Unsupported types for equality comparison'')"
proof (intro conjI impI)
  assume "length args \<noteq> 2"
  then show "builtin_eq args =
      Error ''ArityError'' (CHR 0x27 # ''='' @ CHR 0x27 # '' requires exactly 2 arguments'')"
    using builtin_eq_arity [of args] by (simp add: pval_error_def)
next
  assume "ptype a \<noteq> ptype b"
  then show "builtin_eq [a, b] = Boolean False" by (simp add: pval_bool_def)
next
  show "builtin_eq [Boolean p, Boolean q] = Boolean (p = q)" by (simp add: pval_bool_def)
next
  show "builtin_eq [Symbol s, Symbol t] = Boolean (s = t)" by (simp add: pval_bool_def)
next
  assume "ptype a = ptype b
      \<and> (ptype a = PVAL_LIST \<or> ptype a = PVAL_FUNCTION \<or> ptype a = PVAL_ERROR)"
  then have "builtin_eq [a, b] =
      pval_error ''TypeError'' ''Unsupported types for equality comparison''"
    using builtin_eq_unsupported [of a b] by blast
  then show "builtin_eq [a, b] = Error ''TypeError'' ''Unsupported types for equality comparison''"
    by (simp only: pval_error_def)
qed

theorem builtin_eq_cases_witness:
  "length [Number (Fin False 1)] \<noteq> 2
   \<and> builtin_eq [Number (Fin False 1)] =
       Error ''ArityError'' (CHR 0x27 # ''='' @ CHR 0x27 # '' requires exactly 2 arguments'')
   \<and> length [Boolean True, Boolean True, Boolean True] \<noteq> 2
   \<and> builtin_eq [Boolean True, Boolean True, Boolean True] =
       Error ''ArityError'' (CHR 0x27 # ''='' @ CHR 0x27 # '' requires exactly 2 arguments'')
   \<and> ptype (Number (Fin False 1)) \<noteq> ptype (Symbol ''x'')
   \<and> builtin_eq [Number (Fin False 1), Symbol ''x''] = Boolean False
   \<and> builtin_eq [Boolean True, Boolean True] = Boolean True
   \<and> builtin_eq [Boolean False, Boolean False] = Boolean True
   \<and> builtin_eq [Boolean True, Boolean False] = Boolean False
   \<and> builtin_eq [Symbol ''x'', Symbol ''x''] = Boolean True
   \<and> builtin_eq [Symbol ''x'', Symbol ''y''] = Boolean False
   \<and> ptype pval_list = ptype pval_list \<and> ptype pval_list = PVAL_LIST
   \<and> builtin_eq [pval_list, pval_list] =
       Error ''TypeError'' ''Unsupported types for equality comparison''
   \<and> ptype (Function FN_add) = PVAL_FUNCTION
   \<and> builtin_eq [Function FN_add, Function FN_add] =
       Error ''TypeError'' ''Unsupported types for equality comparison''
   \<and> ptype (Error ''E'' ''m'') = PVAL_ERROR
   \<and> builtin_eq [Error ''E'' ''m'', Error ''E'' ''m''] =
       Error ''TypeError'' ''Unsupported types for equality comparison''"
  using builtin_eq_cases [where args = "[Number (Fin False 1)]" and a = "Number (Fin False 1)"
        and b = "Symbol ''x''" and p = True and q = True and s = "''x''" and t = "''x''"]
    builtin_eq_cases [where args = "[Boolean True, Boolean True, Boolean True]" and a = pval_list
        and b = pval_list and p = False and q = False and s = "''x''" and t = "''y''"]
    builtin_eq_cases [where a = "Function FN_add" and b = "Function FN_add" and p = True
        and q = False]
    builtin_eq_cases [where a = "Error ''E'' ''m''" and b = "Error ''E'' ''m''"]
  by (simp add: pval_list_def del: builtin_eq.simps)

section \<open>Properties of the parser\<close>

text \<open>
  Claim C8. When the text left after the leading whitespace starts with the two characters
  \<^verbatim>\<open>#t\<close> (or \<^verbatim>\<open>#f\<close>), \<open>pval_parse\<close> returns the boolean true (or false) and moves the cursor by
  exactly these two characters, whatever follows them: parsing \<^verbatim>\<open>#true\<close> gives true and leaves
  \<^verbatim>\<open>rue\<close> unread. This holds for every \<^verbatim>\<open>strtod\<close>.
\<close>

theorem pval_parse_bool_prefix:
  "(take 2 (skip_whitespace input) = ''#t'' \<longrightarrow>
      pval_parse strtod input = (Some (pval_bool True), drop 2 (skip_whitespace input)))
   \<and> (take 2 (skip_whitespace input) = ''#f'' \<longrightarrow>
      pval_parse strtod input = (Some (pval_bool False), drop 2 (skip_whitespace input)))
   \<and> pval_parse strtod ''#true'' = (Some (pval_bool True), ''rue'')"
proof -
  have t: "pval_parse strtod input = (Some (pval_bool True), drop 2 (skip_whitespace input))"
    if "take 2 (skip_whitespace input) = ''#t''"
  proof -
    from that obtain rest where sk: "skip_whitespace input = CHR ''#'' # CHR ''t'' # rest"
      by (cases "skip_whitespace input"; cases "tl (skip_whitespace input)") auto
    then show ?thesis
      by (simp add: pval_parse.simps parse_atom_def isdigit_def)
  qed
  have f: "pval_parse strtod input = (Some (pval_bool False), drop 2 (skip_whitespace input))"
    if "take 2 (skip_whitespace input) = ''#f''"
  proof -
    from that obtain rest where sk: "skip_whitespace input = CHR ''#'' # CHR ''f'' # rest"
      by (cases "skip_whitespace input"; cases "tl (skip_whitespace input)") auto
    then show ?thesis
      by (simp add: pval_parse.simps parse_atom_def isdigit_def)
  qed
  have "pval_parse strtod ''#true'' = (Some (pval_bool True), ''rue'')"
    by (simp add: pval_parse.simps parse_atom_def isdigit_def skip_whitespace_def isspace_def)
  with t f show ?thesis by blast
qed

theorem pval_parse_bool_prefix_witness:
  "take 2 (skip_whitespace ''  #t1'') = ''#t''
   \<and> pval_parse strtod_decimal ''  #t1'' = (Some (Boolean True), ''1'')
   \<and> take 2 (skip_whitespace ''#false)'') = ''#f''
   \<and> pval_parse strtod_decimal ''#false)'' = (Some (Boolean False), ''alse)'')"
  using pval_parse_bool_prefix [of "''  #t1''" strtod_decimal]
    pval_parse_bool_prefix [of "''#false)''" strtod_decimal]
  by (simp add: skip_whitespace_def isspace_def pval_bool_def)

section \<open>Numeric equality\<close>







section \<open>Properties of printing\<close>

lemma wrap32_range: "INT32_MIN \<le> wrap32 k \<and> wrap32 k \<le> INT32_MAX"
proof -
  have "0 \<le> (k + 2 ^ 31) mod (2 ^ 32 :: int)" "(k + 2 ^ 31) mod (2 ^ 32 :: int) < 2 ^ 32"
    by simp_all
  then show ?thesis by (simp add: wrap32_def INT32_MIN_def INT32_MAX_def)
qed

lemma pval_print_number_eq:
  assumes "0 \<le> m"
  shows "pval_print oor nonfinite (Some (Number (Fin s m))) =
     (if no_fractional_part m \<and> in_int32_range (Fin s m)
      then printf_d (if s then - \<lfloor>m\<rfloor> else \<lfloor>m\<rfloor>) else printf_3f nonfinite (Fin s m))"
proof -
  define k where "k = (if s then - \<lfloor>m\<rfloor> else \<lfloor>m\<rfloor>)"
  from assms have fl: "0 \<le> \<lfloor>m\<rfloor>" by simp
  show ?thesis
  proof (cases "INT32_MIN \<le> k \<and> k \<le> INT32_MAX")
    case True
    then have i: "int32_of_double oor (Fin s m) = k" by (simp add: k_def Let_def)
    have abs: "\<bar>k\<bar> = \<lfloor>m\<rfloor>" using fl by (simp add: k_def)
    have eq: "d_eq (Fin s m) (double_of_int32 k) = no_fractional_part m"
    proof (cases "no_fractional_part m")
      case False
      then show ?thesis
        unfolding no_fractional_part_def by (auto simp: double_of_int32_def abs)
    next
      case nf: True
      then have m: "m = of_int \<lfloor>m\<rfloor>" unfolding no_fractional_part_def by (rule sym)
      have "s = (k < 0) \<or> m = 0"
      proof (cases "\<lfloor>m\<rfloor> = 0")
        case True
        with m show ?thesis by simp
      next
        case False
        with fl have "0 < \<lfloor>m\<rfloor>" by linarith
        then show ?thesis unfolding k_def by (cases s) auto
      qed
      with nf m show ?thesis by (simp add: double_of_int32_def abs)
    qed
    have rng: "no_fractional_part m \<Longrightarrow> in_int32_range (Fin s m)"
    proof -
      assume "no_fractional_part m"
      then have "m = of_int \<lfloor>m\<rfloor>" unfolding no_fractional_part_def by (rule sym)
      then have "d_val (Fin s m) = of_int k" by (simp add: k_def)
      with True show ?thesis by (simp add: in_int32_range_def)
    qed
    from i eq rng show ?thesis
      by (auto simp: k_def simp del: int32_of_double.simps printf_3f.simps)
  next
    case False
    define w where "w = wrap32 (oor (Fin s m))"
    have i: "int32_of_double oor (Fin s m) = w"
      using False unfolding k_def w_def by (cases s) (auto simp: Let_def)
    have wr: "INT32_MIN \<le> w" "w \<le> INT32_MAX" using wrap32_range [of "oor (Fin s m)"] by (simp_all add: w_def)
    have neq: "\<not> d_eq (Fin s m) (double_of_int32 w)"
    proof
      assume "d_eq (Fin s m) (double_of_int32 w)"
      then have m: "m = of_int \<bar>w\<bar>" and sg: "s = (w < 0) \<or> m = 0"
        by (auto simp: double_of_int32_def)
      have "\<lfloor>m\<rfloor> = \<bar>w\<bar>" unfolding m by (rule floor_of_int)
      with False wr sg m show False
        by (auto simp: k_def INT32_MIN_def INT32_MAX_def split: if_splits)
    qed
    have nr: "\<not> (no_fractional_part m \<and> in_int32_range (Fin s m))"
    proof
      assume a: "no_fractional_part m \<and> in_int32_range (Fin s m)"
      then have "of_int \<lfloor>m\<rfloor> = m" unfolding no_fractional_part_def by (rule conjunct1)
      then have "m = of_int \<lfloor>m\<rfloor>" by (rule sym)
      then have "d_val (Fin s m) = of_int k" by (simp add: k_def)
      with a have "INT32_MIN \<le> k \<and> k \<le> INT32_MAX"
        by (simp add: in_int32_range_def)
      with False show False by simp
    qed
    from i neq nr show ?thesis
      by (cases s) (auto simp del: int32_of_double.simps printf_3f.simps)
  qed
qed


lemma digit_char_isdigit_each:
  "isdigit (digit_char 0)" "isdigit (digit_char 1)" "isdigit (digit_char 2)"
  "isdigit (digit_char 3)" "isdigit (digit_char 4)" "isdigit (digit_char 5)"
  "isdigit (digit_char 6)" "isdigit (digit_char 7)" "isdigit (digit_char 8)"
  "isdigit (digit_char 9)"
  by code_simp+

lemma digit_char_isdigit:
  assumes "0 \<le> d" and "d \<le> 9"
  shows "isdigit (digit_char d)"
proof -
  from assms have "d = 0 \<or> d = 1 \<or> d = 2 \<or> d = 3 \<or> d = 4 \<or> d = 5 \<or> d = 6 \<or> d = 7 \<or> d = 8 \<or> d = 9"
    by arith
  then show ?thesis
    using digit_char_isdigit_each by auto
qed

lemma show_digits_isdigit: "0 \<le> n \<Longrightarrow> list_all isdigit (show_digits n)"
proof (induction n rule: show_digits.induct)
  case (1 n)
  show ?case
  proof (cases "n < 10")
    case True
    with "1.prems" show ?thesis
      by (subst show_digits.simps) (simp add: digit_char_isdigit)
  next
    case False
    with "1.prems" have "0 \<le> n div 10" by simp
    with "1.IH" False have "list_all isdigit (show_digits (n div 10))" by simp
    moreover have "isdigit (digit_char (n mod 10))"
      by (rule digit_char_isdigit) simp_all
    ultimately show ?thesis using False
      by (subst show_digits.simps) simp
  qed
qed

lemma isdigit_not_point: "isdigit c \<Longrightarrow> c \<noteq> CHR ''.'' \<and> c \<noteq> CHR ''-''"
  by (auto simp: isdigit_def)

lemma printf_d_no_point: "CHR ''.'' \<notin> set (printf_d k)"
proof -
  have "\<And>n. 0 \<le> n \<Longrightarrow> CHR ''.'' \<notin> set (show_digits n)"
    using show_digits_isdigit isdigit_not_point by (fastforce simp: list_all_iff)
  then show ?thesis by (simp add: printf_d_def)
qed

lemma printf_3f_shape:
  assumes "0 \<le> m"
  shows "\<exists>ip d1 d2 d3. printf_3f nonfinite (Fin s m) = (if s then ''-'' else []) @ ip @ ''.'' @ [d1, d2, d3]
           \<and> list_all isdigit (ip @ [d1, d2, d3])"
proof -
  define n where "n = round_half_even (m * 1000)"
  from assms have "0 \<le> m * 1000" by simp
  then have "0 \<le> \<lfloor>m * 1000\<rfloor>" by simp
  then have n0: "0 \<le> n" by (simp add: n_def round_half_even_def Let_def)
  then have "0 \<le> n div 1000" by simp
  then have ip: "list_all isdigit (show_digits (n div 1000))" by (rule show_digits_isdigit)
  have d: "isdigit (digit_char (n div 100 mod 10))" "isdigit (digit_char (n div 10 mod 10))"
      "isdigit (digit_char (n mod 10))"
    by (rule digit_char_isdigit; simp)+
  have eq: "printf_3f nonfinite (Fin s m) = (if s then ''-'' else []) @ show_digits (n div 1000) @ ''.'' @
      [digit_char (n div 100 mod 10), digit_char (n div 10 mod 10), digit_char (n mod 10)]"
    by (simp add: n_def Let_def)
  show ?thesis
    apply (rule exI [where x = "show_digits (n div 1000)"])
    apply (rule exI [where x = "digit_char (n div 100 mod 10)"])
    apply (rule exI [where x = "digit_char (n div 10 mod 10)"])
    apply (rule exI [where x = "digit_char (n mod 10)"])
    using eq ip d by simp
qed

text \<open>
  Claim C3, as stated, fails for a number without fractional part that does not fit an
  \<^verbatim>\<open>int32_t\<close>: the test of \<open>pval_print\<close> is \<^verbatim>\<open>number == (int32_t)number\<close>, and ten thousand million
  is printed as \<^verbatim>\<open>10000000000.000\<close>.
\<close>

theorem pval_print_large_integer_counterexample:
  "no_fractional_part 10000000000
   \<and> pval_print oor_arm64 nonfinite_lower (Some (Number (Fin False 10000000000))) = ''10000000000.000''
   \<and> pval_eval (fst (pval_parse strtod_decimal ''10000000000'')) =
       Some (Number (Fin False 10000000000))"
  by code_simp

text \<open>
  Claim C3, amended. A finite number is printed as an integer, without decimal point, exactly
  when it has no fractional part and lies in the range of \<^verbatim>\<open>int32_t\<close>
  (\<open>-2147483648 \<dots> 2147483647\<close>), and otherwise with exactly three decimal digits after the
  point. This holds whatever the cast yields out of range and however \<^verbatim>\<open>printf\<close> writes the
  values that are not finite, of which nothing is claimed.
\<close>

theorem pval_print_number:
  "(0 \<le> m \<longrightarrow>
      pval_print oor nonfinite (Some (Number (Fin s m))) =
        (if no_fractional_part m \<and> in_int32_range (Fin s m)
         then printf_d (if s then - \<lfloor>m\<rfloor> else \<lfloor>m\<rfloor>) else printf_3f nonfinite (Fin s m)))
   \<and> CHR ''.'' \<notin> set (printf_d k)
   \<and> (0 \<le> m \<longrightarrow>
        (\<exists>ip d1 d2 d3.
           printf_3f nonfinite (Fin s m) = (if s then ''-'' else []) @ ip @ ''.'' @ [d1, d2, d3]
           \<and> list_all isdigit (ip @ [d1, d2, d3])))"
proof (intro conjI impI)
  assume "0 \<le> m"
  then show "pval_print oor nonfinite (Some (Number (Fin s m))) =
      (if no_fractional_part m \<and> in_int32_range (Fin s m)
       then printf_d (if s then - \<lfloor>m\<rfloor> else \<lfloor>m\<rfloor>) else printf_3f nonfinite (Fin s m))"
    by (rule pval_print_number_eq)
next
  show "CHR ''.'' \<notin> set (printf_d k)"
    by (rule printf_d_no_point)
next
  assume "0 \<le> m"
  then show "\<exists>ip d1 d2 d3.
      printf_3f nonfinite (Fin s m) = (if s then ''-'' else []) @ ip @ ''.'' @ [d1, d2, d3]
      \<and> list_all isdigit (ip @ [d1, d2, d3])"
    by (rule printf_3f_shape)
qed

lemma print_example_small: "pval_print oor_arm64 nonfinite_lower (Some (Number (Fin False 5))) = ''5''"
  by code_simp

lemma print_example_fraction: "pval_print oor_arm64 nonfinite_lower (Some (Number (Fin True (5 / 2)))) = ''-2.500''"
  by code_simp

lemma print_example_large: "pval_print oor_arm64 nonfinite_lower (Some (Number (Fin False 10000000000))) = ''10000000000.000''"
  by code_simp

lemma print_example_conditions:
  "no_fractional_part 5 = True" "no_fractional_part (5 / 2) = False"
  "no_fractional_part 10000000000 = True"
  "in_int32_range (Fin False 5) = True" "in_int32_range (Fin False 10000000000) = False"
  by code_simp+

theorem pval_print_number_witness:
  "(0::rat) \<le> 5 \<and> no_fractional_part 5 \<and> in_int32_range (Fin False 5)
   \<and> pval_print oor_arm64 nonfinite_lower (Some (Number (Fin False 5))) = ''5''
   \<and> (0::rat) \<le> 5 / 2 \<and> \<not> no_fractional_part (5 / 2)
   \<and> pval_print oor_arm64 nonfinite_lower (Some (Number (Fin True (5 / 2)))) = ''-2.500''
   \<and> no_fractional_part 10000000000 \<and> \<not> in_int32_range (Fin False 10000000000)
   \<and> pval_print oor_arm64 nonfinite_lower (Some (Number (Fin False 10000000000))) = ''10000000000.000''"
  using pval_print_number [where m = 5 and s = False and oor = oor_arm64
        and nonfinite = nonfinite_lower]
    pval_print_number [where m = "5 / 2" and s = True and oor = oor_arm64
        and nonfinite = nonfinite_lower]
    pval_print_number [where m = 10000000000 and s = False and oor = oor_arm64
        and nonfinite = nonfinite_lower]
  by (simp add: print_example_conditions print_example_small print_example_fraction
      print_example_large del: printf_3f.simps pval_print.simps)

section \<open>Evaluation of a list stops at the first error\<close>

lemma eval_loop_step_ok:
  assumes "i < count" and "0 \<le> i" and "nat i < length items"
    and "pval_eval (items ! nat i) = Some v" and "ptype v \<noteq> PVAL_ERROR"
  shows "eval_loop items count i ev = eval_loop items count (i + 1) (ev @ [v])"
  using assms by (subst eval_loop.simps) (cases v; simp)

lemma eval_loop_step_error:
  assumes "i < count" and "0 \<le> i" and "nat i < length items"
    and "pval_eval (items ! nat i) = Some (Error t m)"
  shows "eval_loop items count i ev = pval_error t m"
  using assms by (subst eval_loop.simps) simp

lemma eval_loop_first_error:
  assumes "list_all evaluates_ok pre" and "pval_eval e = Some (Error t m)"
    and "int (length done + length pre) < count"
  shows "eval_loop (done @ pre @ e # post) count (int (length done)) ev = pval_error t m"
  using assms
proof (induction pre arbitrary: "done" ev)
  case Nil
  then show ?case
    by (intro eval_loop_step_error) (simp_all add: nth_append)
next
  case (Cons x xs)
  from Cons.prems(1) obtain v where v: "pval_eval x = Some v" "ptype v \<noteq> PVAL_ERROR"
    by (auto simp: evaluates_ok_def split: option.splits)
  have "eval_loop (done @ (x # xs) @ e # post) count (int (length done)) ev =
      eval_loop (done @ (x # xs) @ e # post) count (int (length done) + 1) (ev @ [v])"
    using Cons.prems(3) v by (intro eval_loop_step_ok) (simp_all add: nth_append)
  also have "\<dots> = eval_loop ((done @ [x]) @ xs @ e # post) count (int (length (done @ [x]))) (ev @ [v])"
    by (simp add: add.commute)
  also have "\<dots> = pval_error t m"
    using Cons.prems by (intro Cons.IH) simp_all
  finally show ?case .
qed

lemma pval_eval_list_first_error:
  assumes "list_all evaluates_ok pre" and "pval_eval e = Some (Error t m)"
    and "int (length pre) < count"
  shows "pval_eval (Some (List (pre @ e # post) count capacity)) = Some (pval_error t m)"
proof -
  from assms(3) have c: "\<not> count < 0" "count \<noteq> 0" by simp_all
  from eval_loop_first_error [of pre e t m "[]" count post "[]"] assms
  have "eval_loop (pre @ e # post) count 0 [] = pval_error t m" by simp
  with c show ?thesis by (simp add: pval_eval.simps(6))
qed

lemma short_circuit_example_parsed:
  "pval_parse strtod_decimal ''(+ 1 (/ 1 0) undefined-symbol)'' = (Some short_circuit_example, [])"
  by code_simp

lemma short_circuit_example_eval:
  "pval_eval (Some short_circuit_example) =
     Some (pval_error ''DivisionByZeroError'' ''Division by zero'')"
  by code_simp

lemma short_circuit_prefix_ok:
  "list_all evaluates_ok [Some (Symbol ''+''), Some (Number (Fin False 1))]"
  by code_simp

lemma short_circuit_division:
  "pval_eval (Some (List [Some (Symbol ''/''), Some (Number (Fin False 1)),
                          Some (Number (Fin False 0)), None] 3 4)) =
     Some (Error ''DivisionByZeroError'' ''Division by zero'')"
  by code_simp

text \<open>
  Claim C1. The elements of a non-empty list are evaluated from left to right, the head
  included. When the elements before some element all evaluate to values that are not errors
  and that element evaluates to an error, the evaluation of the list is that error, whatever
  the elements after it are: they have no part in the result. In particular the text
  \<^verbatim>\<open>(+ 1 (/ 1 0) undefined-symbol)\<close> parses to a list whose evaluation is the one error
  \<^verbatim>\<open>DivisionByZeroError\<close>, and it stays so when \<^verbatim>\<open>undefined-symbol\<close> is replaced by any other
  elements.
\<close>

theorem pval_eval_stops_at_first_error:
  "(list_all evaluates_ok pre \<and> pval_eval e = Some (Error t m) \<and> int (length pre) < count \<longrightarrow>
      pval_eval (Some (List (pre @ e # post) count capacity)) = Some (pval_error t m))
   \<and> pval_parse strtod_decimal ''(+ 1 (/ 1 0) undefined-symbol)'' =
       (Some short_circuit_example, [])
   \<and> pval_eval (Some short_circuit_example) =
       Some (pval_error ''DivisionByZeroError'' ''Division by zero'')
   \<and> (2 < count \<longrightarrow>
        pval_eval (Some (List ([Some (Symbol ''+''), Some (Number (Fin False 1)),
                                Some (List [Some (Symbol ''/''), Some (Number (Fin False 1)),
                                            Some (Number (Fin False 0)), None] 3 4)] @ post)
                           count capacity)) =
          Some (pval_error ''DivisionByZeroError'' ''Division by zero''))"
proof (intro conjI impI)
  assume "list_all evaluates_ok pre \<and> pval_eval e = Some (Error t m) \<and> int (length pre) < count"
  then show "pval_eval (Some (List (pre @ e # post) count capacity)) = Some (pval_error t m)"
    using pval_eval_list_first_error by blast
next
  show "pval_parse strtod_decimal ''(+ 1 (/ 1 0) undefined-symbol)'' =
      (Some short_circuit_example, [])"
    by (rule short_circuit_example_parsed)
next
  show "pval_eval (Some short_circuit_example) =
      Some (pval_error ''DivisionByZeroError'' ''Division by zero'')"
    by (rule short_circuit_example_eval)
next
  assume "2 < count"
  then have "int (length [Some (Symbol ''+''), Some (Number (Fin False 1))]) < count" by simp
  from pval_eval_list_first_error [OF short_circuit_prefix_ok short_circuit_division this]
  show "pval_eval (Some (List ([Some (Symbol ''+''), Some (Number (Fin False 1)),
                                Some (List [Some (Symbol ''/''), Some (Number (Fin False 1)),
                                            Some (Number (Fin False 0)), None] 3 4)] @ post)
                           count capacity)) =
          Some (pval_error ''DivisionByZeroError'' ''Division by zero'')"
    by simp
qed

theorem pval_eval_stops_at_first_error_witness:
  "list_all evaluates_ok [Some (Symbol ''+''), Some (Number (Fin False 1))]
   \<and> pval_eval (Some (List [Some (Symbol ''/''), Some (Number (Fin False 1)),
                            Some (Number (Fin False 0)), None] 3 4)) =
       Some (Error ''DivisionByZeroError'' ''Division by zero'')
   \<and> int (length [Some (Symbol ''+''), Some (Number (Fin False 1))]) < 4
   \<and> (2::int) < 4
   \<and> pval_eval (Some (List ([Some (Symbol ''+''), Some (Number (Fin False 1))]
                            @ Some (List [Some (Symbol ''/''), Some (Number (Fin False 1)),
                                          Some (Number (Fin False 0)), None] 3 4)
                            # [Some (Symbol ''undefined-symbol'')]) 4 4)) =
       Some (Error ''DivisionByZeroError'' ''Division by zero'')"
  using pval_eval_stops_at_first_error
    [of "[Some (Symbol ''+''), Some (Number (Fin False 1))]"
        "Some (List [Some (Symbol ''/''), Some (Number (Fin False 1)),
                     Some (Number (Fin False 0)), None] 3 4)"
        "''DivisionByZeroError''" "''Division by zero''" 4
        "[Some (Symbol ''undefined-symbol'')]" 4]
    short_circuit_prefix_ok short_circuit_division
  by (simp add: pval_error_def)

section \<open>Appending to a list\<close>





















section \<open>Parsing a list\<close>

lemma parse_list_error:
  "skip_whitespace input = c # rest \<Longrightarrow> c \<noteq> CHR '')'' \<Longrightarrow>
   pval_parse strtod (c # rest) = (Some e, rest') \<Longrightarrow> ptype e = PVAL_ERROR \<Longrightarrow>
   parse_list strtod list_value input = (Some e, rest')"
  by (simp add: parse_list.simps)

lemma parse_list_item:
  "skip_whitespace input = c # rest \<Longrightarrow> c \<noteq> CHR '')'' \<Longrightarrow>
   pval_parse strtod (c # rest) = (Some item, rest') \<Longrightarrow> ptype item \<noteq> PVAL_ERROR \<Longrightarrow>
   parse_list strtod list_value input =
     parse_list strtod (pval_add True list_value (Some item)) rest'"
  by (simp add: parse_list.simps)

lemma pval_add_keeps_list:
  "\<exists>items' count' capacity'.
     pval_add realloc_ok (Some (List items count capacity)) new_item =
       Some (List items' count' capacity')"
  by (cases new_item) (auto simp: store_item_def Let_def)

subsection \<open>Parentheses and positions\<close>

lemma isspace_paren: "\<not> isspace (CHR ''('')" "\<not> isspace (CHR '')'')"
  by code_simp+

lemma after_matching_plain:
  "\<forall>c \<in> set p. c \<noteq> CHR ''('' \<and> c \<noteq> CHR '')'' \<Longrightarrow>
   after_matching d (p @ t) = after_matching d t"
  by (induction p) auto

lemma skip_whitespace_split:
  "\<exists>ws. input = ws @ skip_whitespace input \<and> (\<forall>c \<in> set ws. isspace c)"
proof -
  have "input = takeWhile isspace input @ skip_whitespace input"
    by (simp add: skip_whitespace_def)
  moreover have "\<forall>c \<in> set (takeWhile isspace input). isspace c"
    by (auto dest: set_takeWhileD)
  ultimately show ?thesis by blast
qed

lemma after_matching_skip:
  "after_matching d input = after_matching d (skip_whitespace input)"
proof -
  obtain ws where ws: "input = ws @ skip_whitespace input" "\<forall>c \<in> set ws. isspace c"
    using skip_whitespace_split by blast
  from ws(2) isspace_paren have "\<forall>c \<in> set ws. c \<noteq> CHR ''('' \<and> c \<noteq> CHR '')''" by auto
  from after_matching_plain [OF this, of d "skip_whitespace input"] ws(1) show ?thesis by simp
qed

lemma skip_whitespace_first:
  assumes "skip_whitespace input = c # rest"
  shows "\<not> isspace c" and "skip_whitespace (c # rest) = c # rest"
proof -
  from assms have "dropWhile isspace input = c # rest" by (simp add: skip_whitespace_def)
  then show "\<not> isspace c" by (rule dropWhile_eq_Cons_conv [THEN iffD1, THEN conjunct2])
  then show "skip_whitespace (c # rest) = c # rest" by (simp add: skip_whitespace_def)
qed

lemma after_matching_lift:
  "after_matching k s = Some r \<Longrightarrow> after_matching (Suc (k + d)) s = after_matching d r"
proof (induction s arbitrary: k)
  case Nil
  then show ?case by simp
next
  case (Cons c cs)
  consider (op) "c = CHR ''(''" | (cl) "c = CHR '')''" | (other) "c \<noteq> CHR ''(''" "c \<noteq> CHR '')''"
    by blast
  then show ?case
  proof cases
    case op
    with Cons.prems have "after_matching (Suc k) cs = Some r" by simp
    from Cons.IH [OF this] op show ?thesis by simp
  next
    case cl
    show ?thesis
    proof (cases k)
      case 0
      with cl Cons.prems show ?thesis by simp
    next
      case (Suc j)
      with cl Cons.prems have "after_matching j cs = Some r" by simp
      from Cons.IH [OF this] cl Suc show ?thesis by simp
    qed
  next
    case other
    with Cons.prems have "after_matching k cs = Some r" by simp
    from Cons.IH [OF this] other show ?thesis by simp
  qed
qed

lemma after_matching_None_Suc:
  "after_matching d s = None \<Longrightarrow> after_matching (Suc d) s = None"
proof (induction s arbitrary: d)
  case Nil
  then show ?case by simp
next
  case (Cons c cs)
  consider (op) "c = CHR ''(''" | (cl) "c = CHR '')''" | (other) "c \<noteq> CHR ''(''" "c \<noteq> CHR '')''"
    by blast
  then show ?case
  proof cases
    case op
    with Cons.prems have "after_matching (Suc d) cs = None" by simp
    from Cons.IH [OF this] op show ?thesis by simp
  next
    case cl
    show ?thesis
    proof (cases d)
      case 0
      with cl Cons.prems show ?thesis by simp
    next
      case (Suc j)
      with cl Cons.prems have "after_matching j cs = None" by simp
      from Cons.IH [OF this] cl Suc show ?thesis by simp
    qed
  next
    case other
    with Cons.prems have "after_matching d cs = None" by simp
    from Cons.IH [OF this] other show ?thesis by simp
  qed
qed

lemma after_matching_None_any:
  "after_matching 0 s = None \<Longrightarrow> after_matching d s = None"
  by (induction d) (simp_all add: after_matching_None_Suc)

lemma tails_self: "input \<in> set (tails input)"
  by (cases input) simp_all

lemma tails_append: "t \<in> set (tails r) \<Longrightarrow> t \<in> set (tails (p @ r))"
  by (induction p) simp_all

lemma paren_free_suffix:
  assumes "paren_free strtod (p @ r)"
  shows "paren_free strtod r"
  unfolding paren_free_def
proof (intro ballI impI)
  fix t c
  assume t: "t \<in> set (tails r)" and n: "number_start t"
    and c: "c \<in> set (take (snd (strtod t)) t)"
  from t have mem: "t \<in> set (tails (p @ r))" by (rule tails_append)
  from assms have all: "\<forall>t \<in> set (tails (p @ r)).
      number_start t \<longrightarrow>
        (\<forall>c \<in> set (take (snd (strtod t)) t). c \<noteq> CHR ''('' \<and> c \<noteq> CHR '')'')"
    unfolding paren_free_def .
  from bspec [OF all mem] n
  have "\<forall>c \<in> set (take (snd (strtod t)) t). c \<noteq> CHR ''('' \<and> c \<noteq> CHR '')''"
    by (rule mp)
  from bspec [OF this c] show "c \<noteq> CHR ''('' \<and> c \<noteq> CHR '')''" .
qed

lemma tokens_ok_suffix:
  assumes "tokens_ok strtod (p @ r)"
  shows "tokens_ok strtod r"
  unfolding tokens_ok_def
proof (intro ballI)
  fix t
  assume "t \<in> set (tails r)"
  then have mem: "t \<in> set (tails (p @ r))" by (rule tails_append)
  from assms have all: "\<forall>t \<in> set (tails (p @ r)).
      (number_start t \<longrightarrow> snd (strtod t) \<noteq> 0) \<and> length (takeWhile symbol_char t) \<le> 255"
    unfolding tokens_ok_def .
  from bspec [OF all mem]
  show "(number_start t \<longrightarrow> snd (strtod t) \<noteq> 0) \<and> length (takeWhile symbol_char t) \<le> 255" .
qed

subsection \<open>Atoms\<close>

lemma symbol_char_plain: "symbol_char c \<Longrightarrow> c \<noteq> CHR ''('' \<and> c \<noteq> CHR '')''"
  by (simp add: symbol_char_def)

lemma eof_message_distinct:
  "''Invalid number format'' \<noteq> eof_message"
  "''Symbol too long'' \<noteq> eof_message"
  "''Empty symbol or unparsable token'' \<noteq> eof_message"
  by (simp_all add: eof_message_def)

lemma read_symbol_shape:
  "read_symbol buf s = (v, r) \<Longrightarrow>
     (\<exists>p. s = p @ r \<and> (\<forall>c \<in> set p. symbol_char c))
     \<and> (ptype v \<noteq> PVAL_ERROR \<longrightarrow> ptype v = PVAL_SYMBOL)
     \<and> (ptype v = PVAL_ERROR \<longrightarrow>
          (v = Error ''SyntaxError'' ''Symbol too long''
           \<or> v = Error ''SyntaxError'' ''Empty symbol or unparsable token'')
          \<and> (buf \<noteq> [] \<or> s \<noteq> [] \<longrightarrow> r \<noteq> [])
          \<and> (buf \<noteq> [] \<or> (s \<noteq> [] \<and> symbol_char (hd s)) \<longrightarrow>
                255 < length buf + length (takeWhile symbol_char s)))"
proof (induction buf s arbitrary: v r rule: read_symbol.induct)
  case (1 symbol_buffer)
  then show ?case by (auto simp: pval_error_def pval_symbol_def split: if_splits)
next
  case (2 symbol_buffer c input)
  have sc: "symbol_char c = (\<not> isspace c \<and> c \<noteq> CHR ''('' \<and> c \<noteq> CHR '')'')"
    by (simp add: symbol_char_def)
  consider (more) "symbol_char c" "\<not> length symbol_buffer \<ge> 255"
    | (long) "symbol_char c" "length symbol_buffer \<ge> 255"
    | (stop) "\<not> symbol_char c"
    by blast
  then show ?case
  proof cases
    case more
    with "2.prems" sc have rs: "read_symbol (symbol_buffer @ [c]) input = (v, r)" by simp
    from more sc have cond: "\<not> isspace c \<and> c \<noteq> CHR ''('' \<and> c \<noteq> CHR '')''" by simp
    note ih = "2.IH" [OF cond more(2) rs]
    from ih obtain p where p: "input = p @ r" "\<forall>c \<in> set p. symbol_char c" by blast
    from p more(1) have "c # input = (c # p) @ r \<and> (\<forall>x \<in> set (c # p). symbol_char x)" by simp
    then have one: "\<exists>p. c # input = p @ r \<and> (\<forall>c \<in> set p. symbol_char c)" by blast
    from ih have two: "ptype v \<noteq> PVAL_ERROR \<longrightarrow> ptype v = PVAL_SYMBOL" by blast
    have three: "ptype v = PVAL_ERROR \<longrightarrow>
        (v = Error ''SyntaxError'' ''Symbol too long''
         \<or> v = Error ''SyntaxError'' ''Empty symbol or unparsable token'')
        \<and> (symbol_buffer \<noteq> [] \<or> c # input \<noteq> [] \<longrightarrow> r \<noteq> [])
        \<and> (symbol_buffer \<noteq> [] \<or> (c # input \<noteq> [] \<and> symbol_char (hd (c # input))) \<longrightarrow>
              255 < length symbol_buffer + length (takeWhile symbol_char (c # input)))"
    proof
      assume e: "ptype v = PVAL_ERROR"
      with ih have a: "v = Error ''SyntaxError'' ''Symbol too long''
          \<or> v = Error ''SyntaxError'' ''Empty symbol or unparsable token''"
        and b: "r \<noteq> []"
        and c: "255 < length (symbol_buffer @ [c]) + length (takeWhile symbol_char input)"
        by simp_all
      from c more(1) have "255 < length symbol_buffer + length (takeWhile symbol_char (c # input))"
        by simp
      with a b show "(v = Error ''SyntaxError'' ''Symbol too long''
         \<or> v = Error ''SyntaxError'' ''Empty symbol or unparsable token'')
        \<and> (symbol_buffer \<noteq> [] \<or> c # input \<noteq> [] \<longrightarrow> r \<noteq> [])
        \<and> (symbol_buffer \<noteq> [] \<or> (c # input \<noteq> [] \<and> symbol_char (hd (c # input))) \<longrightarrow>
              255 < length symbol_buffer + length (takeWhile symbol_char (c # input)))"
        by simp
    qed
    from one two three show ?thesis by simp
  next
    case long
    with "2.prems" sc have "v = Error ''SyntaxError'' ''Symbol too long''" "r = c # input"
      by (simp_all add: pval_error_def)
    with long show ?thesis by simp
  next
    case stop
    with "2.prems" sc show ?thesis
      by (auto simp: pval_error_def pval_symbol_def split: if_splits)
  qed
qed

lemma parse_atom_number_start:
  "parse_atom strtod input =
     (if number_start input then
        (case strtod input of
           (parsed_num, consumed) \<Rightarrow>
             if consumed = 0
             then (Some (pval_error ''SyntaxError'' ''Invalid number format''), input)
             else (Some (pval_number parsed_num), drop consumed input))
      else if take 2 input = ''#t'' then (Some (pval_bool True), drop 2 input)
      else if take 2 input = ''#f'' then (Some (pval_bool False), drop 2 input)
      else (case read_symbol [] input of (v, rest) \<Rightarrow> (Some v, rest)))"
  unfolding parse_atom_def number_start_def by (rule refl)

lemma parse_atom_shape:
  assumes pa: "parse_atom strtod input = (res, r)" and ne: "input \<noteq> []"
    and pf: "number_start input \<longrightarrow>
               (\<forall>c \<in> set (take (snd (strtod input)) input). c \<noteq> CHR ''('' \<and> c \<noteq> CHR '')'')"
  shows "\<exists>v. res = Some v
      \<and> (ptype v \<noteq> PVAL_ERROR \<longrightarrow>
           ptype v \<noteq> PVAL_LIST
           \<and> (\<exists>p. input = p @ r \<and> (\<forall>c \<in> set p. c \<noteq> CHR ''('' \<and> c \<noteq> CHR '')'')))
      \<and> (ptype v = PVAL_ERROR \<longrightarrow>
           r \<noteq> []
           \<and> (\<exists>m. v = Error ''SyntaxError'' m \<and> m \<noteq> eof_message)
           \<and> (symbol_char (hd input) \<and> (number_start input \<longrightarrow> snd (strtod input) \<noteq> 0) \<longrightarrow>
                 255 < length (takeWhile symbol_char input)))"
proof -
  obtain sv sr where rs: "read_symbol [] input = (sv, sr)"
    by (cases "read_symbol [] input")
  note sym = read_symbol_shape [OF rs]
  obtain num n where st: "strtod input = (num, n)"
    by (cases "strtod input")
  have split: "\<And>k. input = take k input @ drop k input" by simp
  consider (bad) "number_start input" "n = 0"
      "res = Some (Error ''SyntaxError'' ''Invalid number format'')" "r = input"
    | (num) "number_start input" "n \<noteq> 0" "res = Some (Number num)" "r = drop n input"
    | (t) "take 2 input = ''#t''" "res = Some (Boolean True)" "r = drop 2 input"
    | (f) "take 2 input = ''#f''" "res = Some (Boolean False)" "r = drop 2 input"
    | (s) "\<not> number_start input" "res = Some sv" "r = sr"
  proof (cases "number_start input")
    case True
    with pa st show ?thesis
      by (cases "n = 0") (auto simp: parse_atom_number_start pval_error_def pval_number_def intro: bad num)
  next
    case False
    with pa rs show ?thesis
      by (cases "take 2 input = ''#t''"; cases "take 2 input = ''#f''")
        (auto simp: parse_atom_number_start pval_bool_def intro: t f s)
  qed
  then show ?thesis
  proof cases
    case bad
    with ne st eof_message_distinct(1) show ?thesis by simp
  next
    case num
    from pf num(1) st have "\<forall>c \<in> set (take n input). c \<noteq> CHR ''('' \<and> c \<noteq> CHR '')''" by simp
    with split [of n] have "\<exists>p. input = p @ drop n input \<and> (\<forall>c \<in> set p. c \<noteq> CHR ''('' \<and> c \<noteq> CHR '')'')"
      by blast
    with num show ?thesis by simp
  next
    case t
    have "\<forall>c \<in> set (take 2 input). c \<noteq> CHR ''('' \<and> c \<noteq> CHR '')''" unfolding t(1) by simp
    with split [of 2] have "\<exists>p. input = p @ drop 2 input \<and> (\<forall>c \<in> set p. c \<noteq> CHR ''('' \<and> c \<noteq> CHR '')'')"
      by blast
    with t show ?thesis by simp
  next
    case f
    have "\<forall>c \<in> set (take 2 input). c \<noteq> CHR ''('' \<and> c \<noteq> CHR '')''" unfolding f(1) by simp
    with split [of 2] have "\<exists>p. input = p @ drop 2 input \<and> (\<forall>c \<in> set p. c \<noteq> CHR ''('' \<and> c \<noteq> CHR '')'')"
      by blast
    with f show ?thesis by simp
  next
    case s
    from sym obtain p where p: "input = p @ sr" "\<forall>c \<in> set p. symbol_char c" by blast
    from p(2) symbol_char_plain have "\<forall>c \<in> set p. c \<noteq> CHR ''('' \<and> c \<noteq> CHR '')''" by blast
    with p(1) have one: "\<exists>p. input = p @ sr \<and> (\<forall>c \<in> set p. c \<noteq> CHR ''('' \<and> c \<noteq> CHR '')'')"
      by blast
    from sym have two: "ptype sv \<noteq> PVAL_ERROR \<longrightarrow> ptype sv \<noteq> PVAL_LIST" by auto
    have three: "ptype sv = PVAL_ERROR \<longrightarrow>
        sr \<noteq> [] \<and> (\<exists>m. sv = Error ''SyntaxError'' m \<and> m \<noteq> eof_message)
        \<and> (symbol_char (hd input) \<and> (number_start input \<longrightarrow> snd (strtod input) \<noteq> 0) \<longrightarrow>
              255 < length (takeWhile symbol_char input))"
    proof
      assume e: "ptype sv = PVAL_ERROR"
      with sym ne have a: "sv = Error ''SyntaxError'' ''Symbol too long''
          \<or> sv = Error ''SyntaxError'' ''Empty symbol or unparsable token''"
        and b: "sr \<noteq> []"
        and c: "symbol_char (hd input) \<longrightarrow> 255 < length (takeWhile symbol_char input)"
        by simp_all
      from a eof_message_distinct have "\<exists>m. sv = Error ''SyntaxError'' m \<and> m \<noteq> eof_message"
        by auto
      with b c show "sr \<noteq> [] \<and> (\<exists>m. sv = Error ''SyntaxError'' m \<and> m \<noteq> eof_message)
        \<and> (symbol_char (hd input) \<and> (number_start input \<longrightarrow> snd (strtod input) \<noteq> 0) \<longrightarrow>
              255 < length (takeWhile symbol_char input))"
        by simp
    qed
    from one two three s show ?thesis by simp
  qed
qed

subsection \<open>Lists\<close>

lemma parse_list_eof:
  "skip_whitespace input = [] \<Longrightarrow>
   parse_list strtod list_value input = (Some (Error ''SyntaxError'' eof_message), [])"
  by (simp add: parse_list.simps pval_error_def eof_message_def)

lemma parse_list_close:
  "skip_whitespace input = CHR '')'' # rest \<Longrightarrow>
   parse_list strtod list_value input = (list_value, rest)"
  by (simp add: parse_list.simps)

lemma pval_parse_open:
  "skip_whitespace input = CHR ''('' # s \<Longrightarrow>
   pval_parse strtod input = parse_list strtod (Some pval_list) s"
  by (simp add: pval_parse.simps)

lemma pval_parse_atom:
  "skip_whitespace input = c # rest \<Longrightarrow> c \<noteq> CHR ''('' \<Longrightarrow>
   pval_parse strtod input = parse_atom strtod (c # rest)"
  by (simp add: pval_parse.simps)

text \<open>
  The outcomes of the parser, by induction on its calls: nothing to read; a value, the text
  read for it balanced; or a \<^verbatim>\<open>SyntaxError\<close>, which is the one of the end of the input exactly
  when the cursor is left there, and then no parenthesis closes the list.
\<close>

lemma parse_nested:
  "paren_free strtod input \<Longrightarrow> pval_parse strtod input = (res, r) \<Longrightarrow>
     (res = None \<and> skip_whitespace input = [])
     \<or> (\<exists>v. res = Some v \<and> ptype v \<noteq> PVAL_ERROR \<and> (\<exists>p. input = p @ r)
          \<and> (\<forall>d. after_matching d input = after_matching d r)
          \<and> (\<forall>s. skip_whitespace input = CHR ''('' # s \<longrightarrow>
                ptype v = PVAL_LIST \<and> after_matching 0 s = Some r))
     \<or> (\<exists>m. res = Some (Error ''SyntaxError'' m)
          \<and> (if m = eof_message then r = [] \<and> (\<forall>d. after_matching d input = None) else r \<noteq> [])
          \<and> (tokens_ok strtod input \<and> (\<forall>rest. skip_whitespace input \<noteq> CHR '')'' # rest) \<longrightarrow>
                m = eof_message))"
  "paren_free strtod input \<Longrightarrow>
   (\<exists>items count capacity. list_value = Some (List items count capacity)) \<Longrightarrow>
   parse_list strtod list_value input = (res', r') \<Longrightarrow>
     (\<exists>v. res' = Some v \<and> ptype v = PVAL_LIST \<and> (\<exists>p. input = p @ r')
          \<and> after_matching 0 input = Some r')
     \<or> (\<exists>m. res' = Some (Error ''SyntaxError'' m)
          \<and> (if m = eof_message then r' = [] \<and> (\<forall>d. after_matching d input = None) else r' \<noteq> [])
          \<and> (tokens_ok strtod input \<longrightarrow> m = eof_message))"
proof (induction strtod input and strtod list_value input arbitrary: res r and res' r'
    rule: pval_parse_parse_list.induct)
  case (1 strtod input)
  note pf = "1.prems"(1) and pp = "1.prems"(2)
  obtain ws where ws: "input = ws @ skip_whitespace input"
    using skip_whitespace_split by blast
  have am: "\<And>d. after_matching d input = after_matching d (skip_whitespace input)"
    by (rule after_matching_skip)
  show ?case
  proof (cases "skip_whitespace input")
    case Nil
    with pp show ?thesis by (simp add: pval_parse.simps)
  next
    case (Cons c rest)
    from ws Cons have inp: "input = (ws @ [c]) @ rest" "input = ws @ (c # rest)" by simp_all
    show ?thesis
    proof (cases "c = CHR ''(''")
      case True
      from pp Cons True have pl: "parse_list strtod (Some pval_list) rest = (res, r)"
        by (simp add: pval_parse_open)
      from pf inp(1) have pfr: "paren_free strtod rest" by (metis paren_free_suffix)
      have lv: "\<exists>items count capacity. Some pval_list = Some (List items count capacity)"
        by (simp add: pval_list_def)
      have amr: "\<And>d. after_matching d input = after_matching (Suc d) rest"
        unfolding am Cons True by simp
      from "1.IH" [OF Cons True pfr lv pl] show ?thesis
      proof
        assume "\<exists>v. res = Some v \<and> ptype v = PVAL_LIST \<and> (\<exists>p. rest = p @ r)
            \<and> after_matching 0 rest = Some r"
        then obtain v p where v: "res = Some v" "ptype v = PVAL_LIST" and p: "rest = p @ r"
          and m: "after_matching 0 rest = Some r" by blast
        from inp(1) p have "input = (ws @ [c] @ p) @ r" by simp
        then have one: "\<exists>p. input = p @ r" by blast
        have two: "\<forall>d. after_matching d input = after_matching d r"
          using after_matching_lift [OF m] amr by simp
        from v one two m Cons True show ?thesis by simp
      next
        assume "\<exists>m. res = Some (Error ''SyntaxError'' m)
            \<and> (if m = eof_message then r = [] \<and> (\<forall>d. after_matching d rest = None) else r \<noteq> [])
            \<and> (tokens_ok strtod rest \<longrightarrow> m = eof_message)"
        then obtain m where m: "res = Some (Error ''SyntaxError'' m)"
          and c: "if m = eof_message then r = [] \<and> (\<forall>d. after_matching d rest = None) else r \<noteq> []"
          and t: "tokens_ok strtod rest \<longrightarrow> m = eof_message" by blast
        from c amr have c': "if m = eof_message then r = [] \<and> (\<forall>d. after_matching d input = None)
            else r \<noteq> []" by simp
        from t inp(1) have "tokens_ok strtod input \<longrightarrow> m = eof_message"
          by (metis tokens_ok_suffix)
        with m c' show ?thesis by simp
      qed
    next
      case False
      from pp Cons False have pa: "parse_atom strtod (c # rest) = (res, r)"
        by (simp add: pval_parse_atom)
      have mem: "c # rest \<in> set (tails input)"
        unfolding inp(2) by (rule tails_append) (rule tails_self)
      from pf have all: "\<forall>t \<in> set (tails input).
          number_start t \<longrightarrow>
            (\<forall>c \<in> set (take (snd (strtod t)) t). c \<noteq> CHR ''('' \<and> c \<noteq> CHR '')'')"
        unfolding paren_free_def .
      note shape = parse_atom_shape [OF pa _ bspec [OF all mem]]
      then obtain v where v: "res = Some v"
        and ok: "ptype v \<noteq> PVAL_ERROR \<longrightarrow>
           ptype v \<noteq> PVAL_LIST
           \<and> (\<exists>p. c # rest = p @ r \<and> (\<forall>c \<in> set p. c \<noteq> CHR ''('' \<and> c \<noteq> CHR '')''))"
        and bad: "ptype v = PVAL_ERROR \<longrightarrow>
           r \<noteq> []
           \<and> (\<exists>m. v = Error ''SyntaxError'' m \<and> m \<noteq> eof_message)
           \<and> (symbol_char (hd (c # rest))
                \<and> (number_start (c # rest) \<longrightarrow> snd (strtod (c # rest)) \<noteq> 0) \<longrightarrow>
                 255 < length (takeWhile symbol_char (c # rest)))"
        by auto
      show ?thesis
      proof (cases "ptype v = PVAL_ERROR")
        case False
        with ok obtain p where p: "c # rest = p @ r"
          "\<forall>c \<in> set p. c \<noteq> CHR ''('' \<and> c \<noteq> CHR '')''" by blast
        from inp(2) p(1) have "input = (ws @ p) @ r" by simp
        then have one: "\<exists>p. input = p @ r" by blast
        have two: "\<forall>d. after_matching d input = after_matching d r"
          unfolding am Cons p(1) using after_matching_plain [OF p(2)] by simp
        from v False one two Cons \<open>c \<noteq> CHR ''(''\<close> show ?thesis by simp
      next
        case True
        with bad obtain m where m: "v = Error ''SyntaxError'' m" "m \<noteq> eof_message" "r \<noteq> []"
          and long: "symbol_char c \<and> (number_start (c # rest) \<longrightarrow> snd (strtod (c # rest)) \<noteq> 0) \<longrightarrow>
             255 < length (takeWhile symbol_char (c # rest))"
          by auto
        have "\<not> (tokens_ok strtod input \<and> (\<forall>rest. skip_whitespace input \<noteq> CHR '')'' # rest))"
        proof
          assume a: "tokens_ok strtod input \<and> (\<forall>rest. skip_whitespace input \<noteq> CHR '')'' # rest)"
          with Cons have "c \<noteq> CHR '')''" by simp
          with \<open>c \<noteq> CHR ''(''\<close> skip_whitespace_first(1) [OF Cons] have sc: "symbol_char c"
            by (simp add: symbol_char_def)
          from a have tall: "\<forall>t \<in> set (tails input).
              (number_start t \<longrightarrow> snd (strtod t) \<noteq> 0) \<and> length (takeWhile symbol_char t) \<le> 255"
            unfolding tokens_ok_def by simp
          from bspec [OF tall mem] sc long show False by simp
        qed
        with v m show ?thesis by simp
      qed
    qed
  qed
next
  case (2 strtod list_value input)
  note pf = "2.prems"(1) and lv = "2.prems"(2) and pl = "2.prems"(3)
  obtain ws where ws: "input = ws @ skip_whitespace input"
    using skip_whitespace_split by blast
  have am: "\<And>d. after_matching d input = after_matching d (skip_whitespace input)"
    by (rule after_matching_skip)
  show ?case
  proof (cases "skip_whitespace input")
    case Nil
    from parse_list_eof [OF Nil, of strtod list_value] pl am Nil show ?thesis by simp
  next
    case (Cons c rest)
    from ws Cons have inp: "input = (ws @ [c]) @ rest" "input = ws @ (c # rest)" by simp_all
    show ?thesis
    proof (cases "c = CHR '')''")
      case True
      with Cons parse_list_close [of input rest strtod list_value] pl
      have "res' = list_value" "r' = rest" by simp_all
      moreover from inp(1) have "\<exists>p. input = p @ rest" by blast
      moreover have "after_matching 0 input = Some rest"
        unfolding am Cons True by simp
      ultimately show ?thesis using lv by auto
    next
      case False
      obtain pv pr where pp: "pval_parse strtod (c # rest) = (pv, pr)"
        by (cases "pval_parse strtod (c # rest)")
      from pf inp(2) have pfc: "paren_free strtod (c # rest)" by (metis paren_free_suffix)
      note first = skip_whitespace_first [OF Cons]
      from "2.IH"(1) [OF Cons False pfc pp] first(2)
      consider (ok) v where "pv = Some v" "ptype v \<noteq> PVAL_ERROR" "\<exists>p. c # rest = p @ pr"
          "\<forall>d. after_matching d (c # rest) = after_matching d pr"
        | (err) m where "pv = Some (Error ''SyntaxError'' m)"
          "if m = eof_message then pr = [] \<and> (\<forall>d. after_matching d (c # rest) = None) else pr \<noteq> []"
          "tokens_ok strtod (c # rest) \<longrightarrow> m = eof_message"
        using False by auto
      then show ?thesis
      proof cases
        case ok
        from ok(3) obtain p where p: "c # rest = p @ pr" by blast
        from parse_list_item [OF Cons False pp [unfolded ok(1)] ok(2), of list_value] pl
        have rec: "parse_list strtod (pval_add True list_value (Some v)) pr = (res', r')" by simp
        from lv have lv': "\<exists>items count capacity.
            pval_add True list_value (Some v) = Some (List items count capacity)"
          using pval_add_keeps_list by blast
        from pfc p have pfp: "paren_free strtod pr" by (metis paren_free_suffix)
        from inp(2) p have inp': "input = (ws @ p) @ pr" by simp
        have amp: "\<And>d. after_matching d input = after_matching d pr"
          unfolding am Cons using ok(4) by simp
        from "2.IH"(2) [OF Cons False pp [symmetric] ok(1) ok(2) pfp lv' rec] show ?thesis
        proof
          assume "\<exists>w. res' = Some w \<and> ptype w = PVAL_LIST \<and> (\<exists>p. pr = p @ r')
              \<and> after_matching 0 pr = Some r'"
          then obtain w q where w: "res' = Some w" "ptype w = PVAL_LIST" and q: "pr = q @ r'"
            and m: "after_matching 0 pr = Some r'" by blast
          from inp' q have "input = (ws @ p @ q) @ r'" by simp
          then have "\<exists>p. input = p @ r'" by blast
          with w m amp show ?thesis by simp
        next
          assume "\<exists>m. res' = Some (Error ''SyntaxError'' m)
              \<and> (if m = eof_message then r' = [] \<and> (\<forall>d. after_matching d pr = None) else r' \<noteq> [])
              \<and> (tokens_ok strtod pr \<longrightarrow> m = eof_message)"
          then obtain m where m: "res' = Some (Error ''SyntaxError'' m)"
            and c: "if m = eof_message then r' = [] \<and> (\<forall>d. after_matching d pr = None) else r' \<noteq> []"
            and t: "tokens_ok strtod pr \<longrightarrow> m = eof_message" by blast
          from c amp have c': "if m = eof_message then r' = [] \<and> (\<forall>d. after_matching d input = None)
              else r' \<noteq> []" by simp
          from t inp' have "tokens_ok strtod input \<longrightarrow> m = eof_message"
            by (metis tokens_ok_suffix)
          with m c' show ?thesis by simp
        qed
      next
        case err
        have "ptype (Error ''SyntaxError'' m) = PVAL_ERROR" by simp
        from parse_list_error [OF Cons False pp [unfolded err(1)] this, of list_value] pl
        have res: "res' = Some (Error ''SyntaxError'' m)" "r' = pr" by simp_all
        from err(2) have c': "if m = eof_message then pr = [] \<and> (\<forall>d. after_matching d input = None)
            else pr \<noteq> []"
          unfolding am Cons by simp
        from err(3) inp(2) have "tokens_ok strtod input \<longrightarrow> m = eof_message"
          by (metis tokens_ok_suffix)
        with res c' show ?thesis by simp
      qed
    qed
  qed
qed

lemma parse_list_outcome:
  assumes "paren_free strtod input" and "skip_whitespace input = CHR ''('' # s"
    and "pval_parse strtod input = (res, r)"
  shows "(\<exists>v. res = Some v \<and> ptype v = PVAL_LIST \<and> after_matching 0 s = Some r)
     \<or> (\<exists>m. res = Some (Error ''SyntaxError'' m)
          \<and> (if m = eof_message then r = [] \<and> after_matching 0 s = None else r \<noteq> [])
          \<and> (tokens_ok strtod input \<longrightarrow> m = eof_message))"
proof -
  obtain ws where ws: "input = ws @ skip_whitespace input"
    using skip_whitespace_split by blast
  with assms(2) have inp: "input = (ws @ [CHR ''(''] ) @ s" by simp
  from assms(1) inp have pf: "paren_free strtod s" by (metis paren_free_suffix)
  from assms(2,3) have pl: "parse_list strtod (Some pval_list) s = (res, r)"
    by (simp add: pval_parse_open)
  have lv: "\<exists>items count capacity. Some pval_list = Some (List items count capacity)"
    by (simp add: pval_list_def)
  from parse_nested(2) [OF pf lv pl] show ?thesis
  proof
    assume "\<exists>v. res = Some v \<and> ptype v = PVAL_LIST \<and> (\<exists>p. s = p @ r)
        \<and> after_matching 0 s = Some r"
    then show ?thesis by blast
  next
    assume "\<exists>m. res = Some (Error ''SyntaxError'' m)
        \<and> (if m = eof_message then r = [] \<and> (\<forall>d. after_matching d s = None) else r \<noteq> [])
        \<and> (tokens_ok strtod s \<longrightarrow> m = eof_message)"
    then obtain m where m: "res = Some (Error ''SyntaxError'' m)"
      and c: "if m = eof_message then r = [] \<and> (\<forall>d. after_matching d s = None) else r \<noteq> []"
      and t: "tokens_ok strtod s \<longrightarrow> m = eof_message" by blast
    from c have c': "if m = eof_message then r = [] \<and> after_matching 0 s = None else r \<noteq> []"
      by (simp split: if_splits)
    from t inp have "tokens_ok strtod input \<longrightarrow> m = eof_message"
      by (metis tokens_ok_suffix)
    with m c' show ?thesis by blast
  qed
qed

text \<open>
  Claim C6, as stated, quotes a message the parser does not give: at the end of the input
  inside a list the message of \<^verbatim>\<open>main.c\<close> is "Unexpected EOF, expected ')'".
\<close>

theorem parse_list_message_counterexample:
  "pval_parse strtod_decimal ''(a b'' =
     (Some (Error ''SyntaxError'' (''Unexpected EOF, expected '' @ [CHR 0x27, CHR '')'', CHR 0x27])),
      [])
   \<and> ''Unexpected EOF, expected '' @ [CHR 0x27, CHR '')'', CHR 0x27] \<noteq>
       ''unexpected end of input, expected closing parenthesis''"
  by code_simp

text \<open>
  Claim C6, amended in the message only. In the loop that reads the elements of a list,
  whatever list has been built so far:

  \<^item> when only whitespace is left before the end of the input, the result is the \<^verbatim>\<open>SyntaxError\<close>
    with the message "Unexpected EOF, expected ')'";
  \<^item> when the parse of the next element returns an error value, that very value is the result,
    with the cursor where the element left it, and the list is not part of it;
  \<^item> when the next character is \<^verbatim>\<open>)\<close>, the list is returned and the cursor stands just after
    that \<^verbatim>\<open>)\<close>.

  For the parser as a whole, let a text open a list with \<^verbatim>\<open>(\<close>, the text after that parenthesis
  being \<open>s\<close>, and let \<^verbatim>\<open>strtod\<close> read no parenthesis as part of a number. The matching \<^verbatim>\<open>)\<close> is
  found by counting: \<open>after_matching 0 s\<close> is the text after it, and \<open>None\<close> when the input ends
  before it.

  \<^item> On success the value is a list and the cursor is the text just after the matching \<^verbatim>\<open>)\<close>,
    however many lists are nested inside.
  \<^item> When the input ends before the matching \<^verbatim>\<open>)\<close>, the result is a \<^verbatim>\<open>SyntaxError\<close>; the cursor
    is at the end of the input exactly when the message is "Unexpected EOF, expected ')'"
    (otherwise the error is the one of a token met before the end, propagated).
  \<^item> When moreover no token of the text is in error, the result is that \<^verbatim>\<open>SyntaxError\<close> with the
    cursor at the end of the input.
  \<^item> That \<^verbatim>\<open>SyntaxError\<close> is given only when the input ends before the matching \<^verbatim>\<open>)\<close>.
\<close>

theorem parse_list_behaviour:
  "(skip_whitespace input = [] \<longrightarrow>
      parse_list strtod list_value input =
        (Some (Error ''SyntaxError''
           (''Unexpected EOF, expected '' @ [CHR 0x27, CHR '')'', CHR 0x27])), []))
   \<and> (skip_whitespace input = c # rest \<and> c \<noteq> CHR '')''
        \<and> pval_parse strtod (c # rest) = (Some e, rest') \<and> ptype e = PVAL_ERROR \<longrightarrow>
        parse_list strtod list_value input = (Some e, rest'))
   \<and> (skip_whitespace input = CHR '')'' # rest \<longrightarrow>
        parse_list strtod list_value input = (list_value, rest))
   \<and> (paren_free strtod input \<and> skip_whitespace input = CHR ''('' # s
        \<and> pval_parse strtod input = (Some v, r) \<and> ptype v \<noteq> PVAL_ERROR \<longrightarrow>
        ptype v = PVAL_LIST \<and> after_matching 0 s = Some r)
   \<and> (paren_free strtod input \<and> skip_whitespace input = CHR ''('' # s
        \<and> after_matching 0 s = None \<longrightarrow>
        (\<exists>m r. pval_parse strtod input = (Some (Error ''SyntaxError'' m), r)
           \<and> (r = [] \<longleftrightarrow> m = ''Unexpected EOF, expected '' @ [CHR 0x27, CHR '')'', CHR 0x27])))
   \<and> (paren_free strtod input \<and> tokens_ok strtod input
        \<and> skip_whitespace input = CHR ''('' # s \<and> after_matching 0 s = None \<longrightarrow>
        pval_parse strtod input =
          (Some (Error ''SyntaxError''
             (''Unexpected EOF, expected '' @ [CHR 0x27, CHR '')'', CHR 0x27])), []))
   \<and> (paren_free strtod input \<and> skip_whitespace input = CHR ''('' # s
        \<and> pval_parse strtod input =
            (Some (Error ''SyntaxError''
               (''Unexpected EOF, expected '' @ [CHR 0x27, CHR '')'', CHR 0x27])), r') \<longrightarrow>
        r' = [] \<and> after_matching 0 s = None)"
proof (intro conjI; intro impI)
  assume "skip_whitespace input = []"
  from parse_list_eof [OF this]
  show "parse_list strtod list_value input =
      (Some (Error ''SyntaxError''
         (''Unexpected EOF, expected '' @ [CHR 0x27, CHR '')'', CHR 0x27])), [])"
    by (simp add: eof_message_def)
next
  assume "skip_whitespace input = c # rest \<and> c \<noteq> CHR '')''
      \<and> pval_parse strtod (c # rest) = (Some e, rest') \<and> ptype e = PVAL_ERROR"
  then show "parse_list strtod list_value input = (Some e, rest')"
    using parse_list_error by blast
next
  assume "skip_whitespace input = CHR '')'' # rest"
  then show "parse_list strtod list_value input = (list_value, rest)"
    by (rule parse_list_close)
next
  assume a: "paren_free strtod input \<and> skip_whitespace input = CHR ''('' # s
      \<and> pval_parse strtod input = (Some v, r) \<and> ptype v \<noteq> PVAL_ERROR"
  then have "paren_free strtod input" "skip_whitespace input = CHR ''('' # s"
    "pval_parse strtod input = (Some v, r)" by simp_all
  from parse_list_outcome [OF this] a show "ptype v = PVAL_LIST \<and> after_matching 0 s = Some r"
    by auto
next
  assume a: "paren_free strtod input \<and> skip_whitespace input = CHR ''('' # s
      \<and> after_matching 0 s = None"
  obtain res r where pp: "pval_parse strtod input = (res, r)"
    by (cases "pval_parse strtod input")
  from a have "paren_free strtod input" "skip_whitespace input = CHR ''('' # s" by simp_all
  from parse_list_outcome [OF this pp] a obtain m where
    "res = Some (Error ''SyntaxError'' m)"
    "if m = eof_message then r = [] else r \<noteq> []"
    by (auto split: if_splits)
  with pp have "pval_parse strtod input = (Some (Error ''SyntaxError'' m), r)
      \<and> (r = [] \<longleftrightarrow> m = ''Unexpected EOF, expected '' @ [CHR 0x27, CHR '')'', CHR 0x27])"
    by (simp add: eof_message_def split: if_splits)
  then show "\<exists>m r. pval_parse strtod input = (Some (Error ''SyntaxError'' m), r)
      \<and> (r = [] \<longleftrightarrow> m = ''Unexpected EOF, expected '' @ [CHR 0x27, CHR '')'', CHR 0x27])"
    by blast
next
  assume a: "paren_free strtod input \<and> tokens_ok strtod input
      \<and> skip_whitespace input = CHR ''('' # s \<and> after_matching 0 s = None"
  obtain res r where pp: "pval_parse strtod input = (res, r)"
    by (cases "pval_parse strtod input")
  from a have "paren_free strtod input" "skip_whitespace input = CHR ''('' # s" by simp_all
  from parse_list_outcome [OF this pp] a have "res = Some (Error ''SyntaxError'' eof_message)" "r = []"
    by (auto split: if_splits)
  with pp show "pval_parse strtod input =
      (Some (Error ''SyntaxError''
         (''Unexpected EOF, expected '' @ [CHR 0x27, CHR '')'', CHR 0x27])), [])"
    by (simp add: eof_message_def)
next
  assume a: "paren_free strtod input \<and> skip_whitespace input = CHR ''('' # s
      \<and> pval_parse strtod input =
          (Some (Error ''SyntaxError''
             (''Unexpected EOF, expected '' @ [CHR 0x27, CHR '')'', CHR 0x27])), r')"
  then have "paren_free strtod input" "skip_whitespace input = CHR ''('' # s"
    "pval_parse strtod input = (Some (Error ''SyntaxError'' eof_message), r')"
    by (simp_all add: eof_message_def)
  from parse_list_outcome [OF this] show "r' = [] \<and> after_matching 0 s = None"
    by simp
qed

lemma parse_list_examples:
  "paren_free strtod_decimal '' (1 (2.5 x) -3) y''"
  "skip_whitespace '' (1 (2.5 x) -3) y'' = ''(1 (2.5 x) -3) y''"
  "pval_parse strtod_decimal '' (1 (2.5 x) -3) y'' =
     (Some (List [Some (Number (Fin False 1)),
                  Some (List [Some (Number (Fin False (5 / 2))), Some (Symbol ''x''), None, None] 2 4),
                  Some (Number (Fin True 3)), None] 3 4), '' y'')"
  "after_matching 0 ''1 (2.5 x) -3) y'' = Some '' y''"
  "paren_free strtod_decimal ''(a .''"
  "skip_whitespace ''(a .'' = ''(a .''"
  "after_matching 0 ''a .'' = None"
  "pval_parse strtod_decimal ''(a .'' = (Some (Error ''SyntaxError'' ''Invalid number format''), ''.'')"
  "paren_free strtod_decimal ''((a) b''"
  "tokens_ok strtod_decimal ''((a) b''"
  "skip_whitespace ''((a) b'' = ''((a) b''"
  "after_matching 0 ''(a) b'' = None"
  "pval_parse strtod_decimal ''((a) b'' =
     (Some (Error ''SyntaxError'' (''Unexpected EOF, expected '' @ [CHR 0x27, CHR '')'', CHR 0x27])), [])"
  "skip_whitespace ''  '' = []"
  "skip_whitespace '' ) x'' = '') x''"
  "skip_whitespace '' (b .'' = ''(b .''"
  "pval_parse strtod_decimal ''(b .'' = (Some (Error ''SyntaxError'' ''Invalid number format''), ''.'')"
  "parse_list strtod_decimal (Some (List [Some (Symbol ''a''), None, None, None] 1 4)) '' (b .'' =
     (Some (Error ''SyntaxError'' ''Invalid number format''), ''.'')"
  by code_simp+

theorem parse_list_behaviour_witness:
  "skip_whitespace ''  '' = []
   \<and> parse_list strtod_decimal (Some (List [Some (Symbol ''a''), None, None, None] 1 4)) ''  '' =
       (Some (Error ''SyntaxError'' (''Unexpected EOF, expected '' @ [CHR 0x27, CHR '')'', CHR 0x27])), [])
   \<and> skip_whitespace '' ) x'' = CHR '')'' # '' x''
   \<and> parse_list strtod_decimal (Some (List [Some (Symbol ''a''), None, None, None] 1 4)) '' ) x'' =
       (Some (List [Some (Symbol ''a''), None, None, None] 1 4), '' x'')
   \<and> paren_free strtod_decimal '' (1 (2.5 x) -3) y''
   \<and> skip_whitespace '' (1 (2.5 x) -3) y'' = CHR ''('' # ''1 (2.5 x) -3) y''
   \<and> pval_parse strtod_decimal '' (1 (2.5 x) -3) y'' =
       (Some (List [Some (Number (Fin False 1)),
                    Some (List [Some (Number (Fin False (5 / 2))), Some (Symbol ''x''), None, None] 2 4),
                    Some (Number (Fin True 3)), None] 3 4), '' y'')
   \<and> after_matching 0 ''1 (2.5 x) -3) y'' = Some '' y''
   \<and> paren_free strtod_decimal ''(a .'' \<and> skip_whitespace ''(a .'' = CHR ''('' # ''a .''
   \<and> after_matching 0 ''a .'' = None
   \<and> (\<exists>m r. pval_parse strtod_decimal ''(a .'' = (Some (Error ''SyntaxError'' m), r)
         \<and> (r = [] \<longleftrightarrow> m = ''Unexpected EOF, expected '' @ [CHR 0x27, CHR '')'', CHR 0x27]))
   \<and> pval_parse strtod_decimal ''(a .'' = (Some (Error ''SyntaxError'' ''Invalid number format''), ''.'')
   \<and> paren_free strtod_decimal ''((a) b'' \<and> tokens_ok strtod_decimal ''((a) b''
   \<and> skip_whitespace ''((a) b'' = CHR ''('' # ''(a) b''
   \<and> after_matching 0 ''(a) b'' = None
   \<and> pval_parse strtod_decimal ''((a) b'' =
       (Some (Error ''SyntaxError'' (''Unexpected EOF, expected '' @ [CHR 0x27, CHR '')'', CHR 0x27])), [])
   \<and> skip_whitespace '' (b .'' = CHR ''('' # ''b .'' \<and> CHR ''('' \<noteq> CHR '')''
   \<and> pval_parse strtod_decimal (CHR ''('' # ''b .'') =
       (Some (Error ''SyntaxError'' ''Invalid number format''), ''.'')
   \<and> ptype (Error ''SyntaxError'' ''Invalid number format'') = PVAL_ERROR
   \<and> parse_list strtod_decimal (Some (List [Some (Symbol ''a''), None, None, None] 1 4)) '' (b .'' =
       (Some (Error ''SyntaxError'' ''Invalid number format''), ''.'')"
  using parse_list_behaviour [where strtod = strtod_decimal and input = "''  ''"
        and s = "[]" and r = "[]" and r' = "[]" and c = "CHR ''(''"
        and rest = "[]" and rest' = "[]" and e = "Number NaN"
        and list_value = "Some (List [Some (Symbol ''a''), None, None, None] 1 4)"
        and v = "Number NaN"]
    parse_list_behaviour [where strtod = strtod_decimal and input = "'' ) x''"
        and s = "[]" and r = "[]" and r' = "[]" and c = "CHR ''(''"
        and rest = "'' x''" and rest' = "[]" and e = "Number NaN"
        and list_value = "Some (List [Some (Symbol ''a''), None, None, None] 1 4)"
        and v = "Number NaN"]
    parse_list_behaviour [where strtod = strtod_decimal and input = "'' (1 (2.5 x) -3) y''"
        and s = "''1 (2.5 x) -3) y''" and r = "'' y''" and r' = "[]" and c = "CHR ''(''"
        and rest = "[]" and rest' = "[]" and e = "Number NaN" and list_value = "Some pval_list"
        and v = "List [Some (Number (Fin False 1)),
                    Some (List [Some (Number (Fin False (5 / 2))), Some (Symbol ''x''), None, None] 2 4),
                    Some (Number (Fin True 3)), None] 3 4"]
    parse_list_behaviour [where strtod = strtod_decimal and input = "''(a .''"
        and s = "''a .''" and r = "[]" and r' = "[]" and c = "CHR ''(''"
        and rest = "[]" and rest' = "[]" and e = "Number NaN" and list_value = "Some pval_list"
        and v = "Number NaN"]
    parse_list_behaviour [where strtod = strtod_decimal and input = "''((a) b''"
        and s = "''(a) b''" and r = "[]" and r' = "[]" and c = "CHR ''(''"
        and rest = "[]" and rest' = "[]" and e = "Number NaN" and list_value = "Some pval_list"
        and v = "Number NaN"]
    parse_list_behaviour [where strtod = strtod_decimal and input = "'' (b .''"
        and s = "''b .''" and r = "[]" and r' = "[]" and c = "CHR ''(''"
        and rest = "''b .''" and rest' = "''.''"
        and e = "Error ''SyntaxError'' ''Invalid number format''"
        and list_value = "Some (List [Some (Symbol ''a''), None, None, None] 1 4)"
        and v = "Number NaN"]
  by (simp add: parse_list_examples)

end
